theory Spec2Isabelle
  imports Complex_Main
begin

unbundle bit_operations_syntax

section \<open>Data model of \<^verbatim>\<open>main.py\<close>\<close>

text \<open>
  A raster is a list of rows, each row a list of pixels (numpy's row-major
  \<^verbatim>\<open>shape = (rows, cols)\<close>). Grayscale pixels are kept as unbounded integers so that
  the range of a \<^verbatim>\<open>uint8\<close> raster is something to prove and not a fact of the type.
  A bounding box is \<^verbatim>\<open>(x, y, w, h)\<close>, a contour a list of points.
\<close>

type_synonym 'p raster = "'p list list"
type_synonym gray_raster = "int raster"
type_synonym color_raster = "(int \<times> int \<times> int) raster"
type_synonym box = "int \<times> int \<times> int \<times> int"
type_synonym contour = "(int \<times> int) list"

definition has_size :: "'p raster \<Rightarrow> nat \<Rightarrow> nat \<Rightarrow> bool" where
  "has_size r w h = (length r = h \<and> list_all (\<lambda>row. length row = w) r)"

definition in_u8 :: "gray_raster \<Rightarrow> bool" where
  "in_u8 r = list_all (list_all (\<lambda>p. 0 \<le> p \<and> p \<le> 255)) r"

section \<open>The library calls of the heatmap\<close>

text \<open>
  \<^verbatim>\<open>cv2.addWeighted(src1, alpha, src2, beta, gamma)\<close> computes, per pixel,
  \<^verbatim>\<open>saturate_cast<uchar>(src1*alpha + src2*beta + gamma)\<close>: the sum is rounded to the
  nearest integer (\<^verbatim>\<open>cvRound\<close>, ties to the even neighbour) and then clamped to
  \<^verbatim>\<open>0..255\<close>. The weights of the source (0.9, 0.5, 1, 0.05) are taken as the exact
  rationals they denote.
\<close>

definition cvRound :: "rat \<Rightarrow> int" where
  "cvRound v =
     (let f = \<lfloor>v\<rfloor>; d = v - of_int f
      in if d < 1 / 2 then f
         else if 1 / 2 < d then f + 1
         else if even f then f else f + 1)"

definition saturate_cast_u8 :: "rat \<Rightarrow> int" where
  "saturate_cast_u8 v = (let r = cvRound v in if r < 0 then 0 else if 255 < r then 255 else r)"

definition addWeighted :: "gray_raster \<Rightarrow> rat \<Rightarrow> gray_raster \<Rightarrow> rat \<Rightarrow> rat \<Rightarrow> gray_raster" where
  "addWeighted src1 alpha src2 beta gamma =
     map2 (map2 (\<lambda>a b. saturate_cast_u8 (of_int a * alpha + of_int b * beta + gamma))) src1 src2"

text \<open>\<^verbatim>\<open>np.zeros_like(a, dtype=np.uint8)\<close> and \<^verbatim>\<open>np.ones(a.shape, dtype=np.uint8) * 255\<close>.\<close>

definition zeros_like :: "'p raster \<Rightarrow> gray_raster" where
  "zeros_like a = map (map (\<lambda>_. 0)) a"

definition ones_times_255 :: "'p raster \<Rightarrow> gray_raster" where
  "ones_times_255 a = map (map (\<lambda>_. 1 * 255)) a"

text \<open>
  A basic numpy slice \<^verbatim>\<open>a[start:stop]\<close> over an axis of length \<open>n\<close>: a negative bound
  counts from the end, both bounds are clipped to \<open>0..n\<close>, and the slice is empty when the
  clipped stop is not above the clipped start. \<open>slice_bounds\<close> returns the first index
  and the index after the last one (equal for an empty slice).
\<close>

definition slice_index :: "nat \<Rightarrow> int \<Rightarrow> nat" where
  "slice_index n i = (if i < 0 then nat (max 0 (i + int n)) else min (nat i) n)"

definition slice_bounds :: "nat \<Rightarrow> int \<Rightarrow> int \<Rightarrow> nat \<times> nat" where
  "slice_bounds n start stop =
     (let lo = slice_index n start; hi = slice_index n stop in (lo, max lo hi))"

definition get_slice :: "nat \<times> nat \<Rightarrow> 'a list \<Rightarrow> 'a list" where
  "get_slice b xs = take (snd b - fst b) (drop (fst b) xs)"

definition set_slice :: "nat \<times> nat \<Rightarrow> 'a list \<Rightarrow> 'a list \<Rightarrow> 'a list" where
  "set_slice b xs new = take (fst b) xs @ new @ drop (snd b) xs"

text \<open>The row bounds and the column bounds of \<^verbatim>\<open>heatmap[y : y + h, x : x + w]\<close>.\<close>

definition row_bounds :: "'p raster \<Rightarrow> box \<Rightarrow> nat \<times> nat" where
  "row_bounds hm b = (case b of (x, y, w, h) \<Rightarrow> slice_bounds (length hm) y (y + h))"

definition col_bounds :: "'p list \<Rightarrow> box \<Rightarrow> nat \<times> nat" where
  "col_bounds row b = (case b of (x, y, w, h) \<Rightarrow> slice_bounds (length row) x (x + w))"

definition sub_image :: "'p raster \<Rightarrow> box \<Rightarrow> 'p raster" where
  "sub_image hm b = map (\<lambda>row. get_slice (col_bounds row b) row) (get_slice (row_bounds hm b) hm)"

definition assign_sub_image :: "'p raster \<Rightarrow> box \<Rightarrow> 'p raster \<Rightarrow> 'p raster" where
  "assign_sub_image hm b res =
     set_slice (row_bounds hm b) hm
       (map2 (\<lambda>row new. set_slice (col_bounds row b) row new) (get_slice (row_bounds hm b) hm) res)"

section \<open>\<^verbatim>\<open>App.draw_heatmap\<close> and \<^verbatim>\<open>App.darken_heatmap\<close>\<close>

text \<open>
  One turn of the loop of \<^verbatim>\<open>draw_heatmap\<close>: the region under the box is read, blended
  with a white rectangle of its shape and written back. A region with no pixel has
  nothing to blend and nothing to write back.
\<close>

definition draw_box :: "gray_raster \<Rightarrow> box \<Rightarrow> gray_raster" where
  "draw_box hm b =
     (let sub_img = sub_image hm b;
          white_rect = ones_times_255 sub_img;
          res = addWeighted sub_img 1 white_rect (1 / 20) 0
      in assign_sub_image hm b res)"

definition draw_heatmap :: "gray_raster \<Rightarrow> box list \<Rightarrow> gray_raster" where
  "draw_heatmap hm boxes = foldl draw_box hm boxes"

definition darken_heatmap :: "gray_raster \<Rightarrow> gray_raster" where
  "darken_heatmap hm =
     (let black_overlay = zeros_like hm in addWeighted hm (9 / 10) black_overlay (1 / 2) 0)"

section \<open>The heatmap as the specification words it\<close>

text \<open>
  The darken step as the specification describes it: every pixel scaled by 0.9 and
  rounded. The brighten step as the specification describes it: the constant
  \<open>0.05 \<sqdot> 255\<close> added to every pixel under the box (row \<open>i\<close>, column \<open>j\<close> with
  \<open>y \<le> i < y + h\<close> and \<open>x \<le> j < x + w\<close>), stored as a pixel that saturates at 255.
\<close>

definition spec_scale_pixel :: "int \<Rightarrow> int" where
  "spec_scale_pixel p = cvRound (9 / 10 * of_int p)"

definition spec_darken :: "gray_raster \<Rightarrow> gray_raster" where
  "spec_darken hm = map (map spec_scale_pixel) hm"

definition spec_add_white :: "int \<Rightarrow> int" where
  "spec_add_white p = min 255 (cvRound (of_int p + 1 / 20 * 255))"

definition under_box :: "box \<Rightarrow> nat \<Rightarrow> nat \<Rightarrow> bool" where
  "under_box b i j =
     (case b of (x, y, w, h) \<Rightarrow> y \<le> int i \<and> int i < y + h \<and> x \<le> int j \<and> int j < x + w)"

definition spec_brighten :: "gray_raster \<Rightarrow> box \<Rightarrow> gray_raster" where
  "spec_brighten hm b =
     map (\<lambda>(i, row). map (\<lambda>(j, p). if under_box b i j then spec_add_white p else p)
                          (enumerate 0 row))
         (enumerate 0 hm)"

definition box_in_quadrant :: "box \<Rightarrow> bool" where
  "box_in_quadrant b = (case b of (x, y, w, h) \<Rightarrow> 0 \<le> x \<and> 0 \<le> y \<and> 0 \<le> w \<and> 0 \<le> h)"

section \<open>Errors, console output, configuration\<close>

text \<open>
  Exceptions are values. \<^verbatim>\<open>IndexError\<close> is the one exception the source catches;
  \<^verbatim>\<open>ValueError\<close> is what \<^verbatim>\<open>min\<close> raises on an empty sequence; \<^verbatim>\<open>CvError\<close> is what an
  OpenCV call raises when it is handed \<^verbatim>\<open>None\<close> for an image. Each carries its message.
\<close>

datatype py_error = IndexError string | ValueError string | CvError string | OtherError string

text \<open>
  A line written by \<^verbatim>\<open>print\<close>: the caught error of \<^verbatim>\<open>do_object_detection\<close>, the people
  count alarm (current count, maximum allowed) and the people distance alarm (the minimum
  distance rounded to two digits, the minimum allowed).
\<close>

datatype console_line =
    ErrorLine string
  | PeopleCountAlarm nat int
  | PeopleDistanceAlarm real real

text \<open>
  The command line flags (\<^verbatim>\<open>args\<close>; \<open>show_steps\<close> is the flag \<^verbatim>\<open>--show\<close>) and the values
  read from the input JSON.
\<close>

record args =
  show_hog_boxes :: bool
  no_filter_optimized_boxes :: bool
  use_mog2 :: bool
  no_alarm_count :: bool
  no_alarm_distance :: bool
  show_steps :: bool

record conf =
  camera_height :: real
  camera_lower_angle :: real
  camera_upper_angle :: real
  max_people_allowed :: int
  min_distance_allowed :: real

section \<open>The calls into OpenCV, numpy and the modules \<^verbatim>\<open>utils\<close> and \<^verbatim>\<open>contours\<close>\<close>

text \<open>
  What \<^verbatim>\<open>main.py\<close> calls and does not define is a parameter of the model: one field per
  call, with the arguments the source passes. \<open>'sub\<close> is the state of the MOG2
  subtractor, \<open>'d\<close> whatever \<^verbatim>\<open>utils.get_distance_to_camera\<close> returns. A function that
  draws on the frame it is handed (the frame is a numpy array, changed in place) returns
  the frame as it is after the call. An argument the source leaves out is \<open>None\<close>.
  \<open>np_isin_any c d\<close> is \<^verbatim>\<open>np.any(np.isin(c, d))\<close>, \<open>np_delete d c\<close> is
  \<^verbatim>\<open>np.delete(d, c)\<close>, which raises or returns a new array, and \<open>py_round\<close> is Python's
  \<^verbatim>\<open>round\<close>. The other calls are taken to return, and none of them writes to the console.
\<close>

datatype retr_mode = RETR_EXTERNAL

record ('sub, 'd) cv_lib =
  resize_color :: "color_raster \<Rightarrow> nat \<times> nat \<Rightarrow> color_raster"
  resize_gray :: "gray_raster \<Rightarrow> nat \<times> nat \<Rightarrow> gray_raster"
  cvtColor_BGR2GRAY :: "color_raster \<Rightarrow> gray_raster"
  detectMultiScale :: "color_raster \<Rightarrow> box list"
  mog2_apply :: "'sub \<Rightarrow> gray_raster \<Rightarrow> 'sub \<times> gray_raster"
  absdiff :: "gray_raster \<Rightarrow> gray_raster \<Rightarrow> gray_raster"
  contours_work :: "gray_raster \<Rightarrow> retr_mode option \<Rightarrow> bool option \<Rightarrow> gray_raster \<times> contour list"
  np_isin_any :: "contour \<Rightarrow> contour list \<Rightarrow> bool"
  np_delete :: "contour list \<Rightarrow> contour \<Rightarrow> py_error + contour list"
  normalize_small_boxes :: "contour list \<Rightarrow> int \<Rightarrow> box list"
  filter_bounding_boxes :: "box list \<Rightarrow> box list \<Rightarrow> int \<Rightarrow> box list"
  get_distance_to_camera :: "color_raster \<Rightarrow> box list \<Rightarrow> real \<Rightarrow> real \<Rightarrow> real \<Rightarrow> 'd"
  draw_hog_bounding_boxes :: "color_raster \<Rightarrow> box list \<Rightarrow> int \<times> int \<times> int \<Rightarrow> color_raster"
  draw_bounding_boxes :: "color_raster \<Rightarrow> box list \<Rightarrow> int \<times> int \<times> int \<Rightarrow> color_raster"
  write_people_count :: "color_raster \<Rightarrow> nat \<Rightarrow> color_raster"
  draw_distance_between_people :: "color_raster \<Rightarrow> 'd \<Rightarrow> real \<Rightarrow> real \<Rightarrow> color_raster \<times> real list"
  write_average_people_distance :: "color_raster \<Rightarrow> real \<Rightarrow> color_raster"
  py_round :: "real \<Rightarrow> int \<Rightarrow> real"
  circle :: "color_raster \<Rightarrow> int \<times> int \<Rightarrow> int \<Rightarrow> int \<times> int \<times> int \<Rightarrow> int \<Rightarrow> color_raster"

section \<open>The state of \<^verbatim>\<open>App\<close>\<close>

text \<open>
  The fields of \<^verbatim>\<open>App\<close> that the loop reads or writes, and the standard output of the
  process. The capture is the list of frames still to be read and is passed to the loop.
\<close>

record 'sub app =
  subtractor :: 'sub
  background :: gray_raster
  canvas_background :: gray_raster
  contours_background :: "contour list"
  frame :: "color_raster option"
  gray :: "gray_raster option"
  heatmap :: gray_raster
  console :: "console_line list"

text \<open>
  \<^verbatim>\<open>App.__init__\<close>, from the image \<^verbatim>\<open>cv2.imread\<close> returned for the background and a new
  subtractor.
\<close>

definition init_app :: "('sub, 'd) cv_lib \<Rightarrow> 'sub \<Rightarrow> color_raster \<Rightarrow> 'sub app" where
  "init_app lib sub0 img =
     (let bg = cvtColor_BGR2GRAY lib img;
          bg = resize_gray lib bg (350, 300);
          (canvas, contours) = contours_work lib bg None None
      in \<lparr>subtractor = sub0, background = bg, canvas_background = canvas,
          contours_background = contours, frame = None, gray = None,
          heatmap = zeros_like bg, console = []\<rparr>)"

section \<open>\<^verbatim>\<open>BackgroundSubtractor.work\<close> (subtract.py)\<close>

definition subtractor_work :: "('sub, 'd) cv_lib \<Rightarrow> 'sub \<Rightarrow> gray_raster \<Rightarrow> 'sub \<times> gray_raster" where
  "subtractor_work lib sub fr = mog2_apply lib sub fr"

section \<open>\<^verbatim>\<open>App.do_hog_svm\<close> and \<^verbatim>\<open>App.do_object_detection\<close>\<close>

definition do_hog_svm :: "('sub, 'd) cv_lib \<Rightarrow> 'sub app \<Rightarrow> py_error + box list" where
  "do_hog_svm lib a =
     (case frame a of
        None \<Rightarrow> Inl (CvError ''detectMultiScale: no image'')
      | Some f \<Rightarrow> Inr (detectMultiScale lib f))"

text \<open>
  The loop under the comment \<^verbatim>\<open># remove common contours\<close>. \<^verbatim>\<open>np.delete\<close> returns a new
  array and leaves its argument alone; the source drops what it returns, so every branch
  goes on with \<open>diff_contours\<close> as it was. Only \<^verbatim>\<open>IndexError\<close> is caught, and printed.
\<close>

fun remove_common_contours ::
  "('sub, 'd) cv_lib \<Rightarrow> contour list \<Rightarrow> contour list \<Rightarrow> console_line list
     \<Rightarrow> py_error + (contour list \<times> console_line list)" where
  "remove_common_contours lib [] diff_contours out = Inr (diff_contours, out)"
| "remove_common_contours lib (c # cs) diff_contours out =
     (if np_isin_any lib c diff_contours then
        (case np_delete lib diff_contours c of
           Inr _ \<Rightarrow> remove_common_contours lib cs diff_contours out
         | Inl (IndexError msg) \<Rightarrow> remove_common_contours lib cs diff_contours (out @ [ErrorLine msg])
         | Inl e \<Rightarrow> Inl e)
      else remove_common_contours lib cs diff_contours out)"

text \<open>
  Lines 55 and 56 (the background field is assigned when MOG2 is in use), and lines 58 to
  68 (the contours of the thresholded difference image, copied into \<open>diff_contours\<close>).
  The two windows shown under \<^verbatim>\<open>--show\<close> (lines 64 to 66) change no field.
\<close>

definition refresh_background :: "('sub, 'd) cv_lib \<Rightarrow> bool \<Rightarrow> gray_raster \<Rightarrow> 'sub app \<Rightarrow> 'sub app" where
  "refresh_background lib mog2 g a =
     (if mog2
      then (let (sub', bg) = subtractor_work lib (subtractor a) g
            in a\<lparr>subtractor := sub', background := bg\<rparr>)
      else a)"

definition segment_contours :: "('sub, 'd) cv_lib \<Rightarrow> gray_raster \<Rightarrow> 'sub app \<Rightarrow> contour list" where
  "segment_contours lib g a =
     (let segmented = absdiff lib g (background a);
          (canvas_segmented, contours_segmented) =
             contours_work lib segmented (Some RETR_EXTERNAL) (Some True)
      in contours_segmented)"

definition do_object_detection ::
  "('sub, 'd) cv_lib \<Rightarrow> bool \<Rightarrow> 'sub app \<Rightarrow> py_error + (box list \<times> 'sub app)" where
  "do_object_detection lib mog2 a =
     (case gray a of
        None \<Rightarrow> Inl (CvError ''no grayscale image'')
      | Some g \<Rightarrow>
          (let a1 = refresh_background lib mog2 g a;
               diff_contours = segment_contours lib g a1
           in case remove_common_contours lib (contours_background a1) diff_contours (console a1) of
                Inl e \<Rightarrow> Inl e
              | Inr (diff_contours', out) \<Rightarrow>
                  Inr (normalize_small_boxes lib diff_contours' 200, a1\<lparr>console := out\<rparr>)))"

section \<open>\<^verbatim>\<open>App.start\<close>: one turn of the loop, in the order of the source\<close>

text \<open>Lines 108 and 109: the frame that was read is resized and its grayscale form derived.\<close>

definition read_frame :: "('sub, 'd) cv_lib \<Rightarrow> color_raster \<Rightarrow> 'sub app \<Rightarrow> 'sub app" where
  "read_frame lib raw a =
     (let f = resize_color lib raw (350, 300)
      in a\<lparr>frame := Some f, gray := Some (cvtColor_BGR2GRAY lib f)\<rparr>)"

text \<open>Lines 111 and 112: the two detectors.\<close>

definition detect ::
  "('sub, 'd) cv_lib \<Rightarrow> args \<Rightarrow> 'sub app \<Rightarrow> py_error + (box list \<times> box list \<times> 'sub app)" where
  "detect lib ar a =
     (case do_hog_svm lib a of
        Inl e \<Rightarrow> Inl e
      | Inr hog_boxes \<Rightarrow>
          (case do_object_detection lib (use_mog2 ar) a of
             Inl e \<Rightarrow> Inl e
           | Inr (small_boxes, a') \<Rightarrow> Inr (hog_boxes, small_boxes, a')))"

text \<open>
  Lines 114 to 142: filtering, distances and the drawing on the frame. The result holds
  the list \<^verbatim>\<open>distances\<close>.
\<close>

definition annotate ::
  "('sub, 'd) cv_lib \<Rightarrow> args \<Rightarrow> conf \<Rightarrow> box list \<Rightarrow> box list \<Rightarrow> 'sub app
     \<Rightarrow> py_error + (real list \<times> 'sub app)" where
  "annotate lib ar cf hog_boxes small_boxes a =
     (case frame a of
        None \<Rightarrow> Inl (CvError ''no image'')
      | Some f \<Rightarrow>
          (let filtered_boxes = filter_bounding_boxes lib hog_boxes small_boxes 200;
               distance_boxes = get_distance_to_camera lib f filtered_boxes
                  (camera_height cf) (camera_lower_angle cf) (camera_upper_angle cf);
               f = (if show_hog_boxes ar
                    then draw_hog_bounding_boxes lib f hog_boxes (255, 0, 0) else f);
               f = (if no_filter_optimized_boxes ar
                    then draw_bounding_boxes lib f small_boxes (0, 255, 0)
                    else draw_bounding_boxes lib f filtered_boxes (0, 255, 0));
               f = write_people_count lib f (length hog_boxes);
               (f, distances) = draw_distance_between_people lib f distance_boxes (17 / 10)
                  (min_distance_allowed cf);
               average_distance =
                 (if length distances > 0
                  then py_round lib (sum_list distances / real (length distances)) 1 else 0);
               f = write_average_people_distance lib f average_distance
           in Inr (distances, a\<lparr>frame := Some f\<rparr>)))"

text \<open>Lines 145 to 151: the people count alarm.\<close>

definition count_alarm ::
  "('sub, 'd) cv_lib \<Rightarrow> args \<Rightarrow> conf \<Rightarrow> box list \<Rightarrow> 'sub app \<Rightarrow> py_error + 'sub app" where
  "count_alarm lib ar cf hog_boxes a =
     (if \<not> no_alarm_count ar then
        (let people_count = length hog_boxes
         in if int people_count > max_people_allowed cf then
              (let a1 = a\<lparr>console := console a @ [PeopleCountAlarm people_count (max_people_allowed cf)]\<rparr>
               in case frame a1 of
                    None \<Rightarrow> Inl (CvError ''circle: no image'')
                  | Some f \<Rightarrow> Inr (a1\<lparr>frame := Some (circle lib f (335, 265) 3 (0, 128, 255) 5)\<rparr>))
            else Inr a)
      else Inr a)"

text \<open>Python's \<^verbatim>\<open>min\<close> over a list: the first of the smallest items, an error on no item.\<close>

fun py_min :: "real list \<Rightarrow> py_error + real" where
  "py_min [] = Inl (ValueError ''min() arg is an empty sequence'')"
| "py_min (x # xs) = Inr (foldl (\<lambda>m y. if y < m then y else m) x xs)"

text \<open>Lines 152 to 158: the people distance alarm.\<close>

definition distance_alarm ::
  "('sub, 'd) cv_lib \<Rightarrow> args \<Rightarrow> conf \<Rightarrow> real list \<Rightarrow> 'sub app \<Rightarrow> py_error + 'sub app" where
  "distance_alarm lib ar cf distances a =
     (if \<not> no_alarm_distance ar \<and> length distances > 0 then
        (case py_min distances of
           Inl e \<Rightarrow> Inl e
         | Inr min_distance \<Rightarrow>
             if min_distance < min_distance_allowed cf then
               (let a1 = a\<lparr>console := console a @
                           [PeopleDistanceAlarm (py_round lib min_distance 2) (min_distance_allowed cf)]\<rparr>
                in case frame a1 of
                     None \<Rightarrow> Inl (CvError ''circle: no image'')
                   | Some f \<Rightarrow> Inr (a1\<lparr>frame := Some (circle lib f (335, 285) 3 (0, 0, 255) 5)\<rparr>))
             else Inr a)
      else Inr a)"

text \<open>Lines 160 to 162: the heatmap, every tenth frame.\<close>

definition update_heatmap :: "int \<Rightarrow> box list \<Rightarrow> 'sub app \<Rightarrow> 'sub app" where
  "update_heatmap frame_counter small_boxes a =
     (if frame_counter mod 10 = 0
      then (let a1 = a\<lparr>heatmap := darken_heatmap (heatmap a)\<rparr>
            in a1\<lparr>heatmap := draw_heatmap (heatmap a1) small_boxes\<rparr>)
      else a)"

text \<open>
  The body of the loop from line 108 to line 168, for a frame that was read. The window
  shown at the end (\<^verbatim>\<open>np.hstack\<close>, \<^verbatim>\<open>cv2.imshow\<close>) changes no field.
\<close>

definition loop_body ::
  "('sub, 'd) cv_lib \<Rightarrow> args \<Rightarrow> conf \<Rightarrow> int \<Rightarrow> color_raster \<Rightarrow> 'sub app \<Rightarrow> py_error + 'sub app" where
  "loop_body lib ar cf frame_counter raw a =
     (case detect lib ar (read_frame lib raw a) of
        Inl e \<Rightarrow> Inl e
      | Inr (hog_boxes, small_boxes, a1) \<Rightarrow>
          (case annotate lib ar cf hog_boxes small_boxes a1 of
             Inl e \<Rightarrow> Inl e
           | Inr (distances, a2) \<Rightarrow>
               (case count_alarm lib ar cf hog_boxes a2 of
                  Inl e \<Rightarrow> Inl e
                | Inr a3 \<Rightarrow>
                    (case distance_alarm lib ar cf distances a3 of
                       Inl e \<Rightarrow> Inl e
                     | Inr a4 \<Rightarrow> Inr (update_heatmap frame_counter small_boxes a4)))))"

text \<open>
  The loop. The capture is a list of pairs: a frame it delivers, and the key
  \<^verbatim>\<open>cv2.waitKey(1)\<close> returns at the end of that frame's turn. At the end of the list
  \<^verbatim>\<open>cap.read()\<close> returns \<^verbatim>\<open>(False, None)\<close> and the loop is left. An exception ends the
  run.
\<close>

fun start_loop ::
  "('sub, 'd) cv_lib \<Rightarrow> args \<Rightarrow> conf \<Rightarrow> int \<Rightarrow> (color_raster \<times> int) list \<Rightarrow> 'sub app
     \<Rightarrow> py_error + 'sub app" where
  "start_loop lib ar cf frame_counter [] a = Inr (a\<lparr>frame := None\<rparr>)"
| "start_loop lib ar cf frame_counter ((raw, key) # rest) a =
     (case loop_body lib ar cf frame_counter raw a of
        Inl e \<Rightarrow> Inl e
      | Inr a' \<Rightarrow>
          if key AND 255 = 113 then Inr a'
          else start_loop lib ar cf (frame_counter + 1) rest a')"

definition start ::
  "('sub, 'd) cv_lib \<Rightarrow> args \<Rightarrow> conf \<Rightarrow> (color_raster \<times> int) list \<Rightarrow> 'sub app \<Rightarrow> py_error + 'sub app" where
  "start lib ar cf capture a = start_loop lib ar cf 0 capture a"

section \<open>Sequences of heatmap operations\<close>

text \<open>
  The two operations the loop applies to the heatmap, to state properties of every
  sequence of them.
\<close>

datatype heatmap_op = Darken | Brighten "box list"

fun apply_heatmap_op :: "gray_raster \<Rightarrow> heatmap_op \<Rightarrow> gray_raster" where
  "apply_heatmap_op hm Darken = darken_heatmap hm"
| "apply_heatmap_op hm (Brighten boxes) = draw_heatmap hm boxes"

section \<open>Vocabulary of the properties\<close>

text \<open>
  The lines one turn of the loop prints: what the console holds after it, beyond what it
  held before.
\<close>

definition printed :: "'sub app \<Rightarrow> 'sub app \<Rightarrow> console_line list" where
  "printed a a' = drop (length (console a)) (console a')"

fun is_count_alarm :: "console_line \<Rightarrow> bool" where
  "is_count_alarm (PeopleCountAlarm n m) = True"
| "is_count_alarm l = False"

fun is_distance_alarm :: "console_line \<Rightarrow> bool" where
  "is_distance_alarm (PeopleDistanceAlarm d m) = True"
| "is_distance_alarm l = False"

fun is_error_line :: "console_line \<Rightarrow> bool" where
  "is_error_line (ErrorLine msg) = True"
| "is_error_line l = False"

fun is_IndexError :: "py_error \<Rightarrow> bool" where
  "is_IndexError (IndexError msg) = True"
| "is_IndexError e = False"

text \<open>
  The lines the exclusion loop prints for a list of background contours: one for every
  contour that matches and whose deletion raises \<^verbatim>\<open>IndexError\<close>.
\<close>

definition caught_errors :: "('sub, 'd) cv_lib \<Rightarrow> contour list \<Rightarrow> contour list \<Rightarrow> console_line list" where
  "caught_errors lib cs diff_contours =
     concat (map (\<lambda>c. if np_isin_any lib c diff_contours
                       then (case np_delete lib diff_contours c of
                               Inl (IndexError msg) \<Rightarrow> [ErrorLine msg]
                             | _ \<Rightarrow> [])
                       else []) cs)"

text \<open>The key \<^verbatim>\<open>q\<close> ends the loop; a capture in which it is never pressed.\<close>

definition no_quit :: "(color_raster \<times> int) list \<Rightarrow> bool" where
  "no_quit capture = list_all (\<lambda>(raw, key). key AND 255 \<noteq> 113) capture"

text \<open>
  What the resolution of the rasters rests on in the libraries: \<^verbatim>\<open>cv2.resize\<close> returns
  the size it is asked for, \<^verbatim>\<open>cv2.cvtColor\<close> and the MOG2 subtractor return a raster of
  the size of their input, and drawing on a frame keeps its size.
\<close>

definition lib_contract :: "('sub, 'd) cv_lib \<Rightarrow> bool" where
  "lib_contract lib =
     ((\<forall>f w h. has_size (resize_color lib f (w, h)) w h) \<and>
      (\<forall>g w h. has_size (resize_gray lib g (w, h)) w h) \<and>
      (\<forall>f w h. has_size f w h \<longrightarrow> has_size (cvtColor_BGR2GRAY lib f) w h) \<and>
      (\<forall>s g w h. has_size g w h \<longrightarrow> has_size (snd (mog2_apply lib s g)) w h) \<and>
      (\<forall>f bs c w h. has_size f w h \<longrightarrow> has_size (draw_hog_bounding_boxes lib f bs c) w h) \<and>
      (\<forall>f bs c w h. has_size f w h \<longrightarrow> has_size (draw_bounding_boxes lib f bs c) w h) \<and>
      (\<forall>f n w h. has_size f w h \<longrightarrow> has_size (write_people_count lib f n) w h) \<and>
      (\<forall>f d p m w h. has_size f w h \<longrightarrow>
          has_size (fst (draw_distance_between_people lib f d p m)) w h) \<and>
      (\<forall>f v w h. has_size f w h \<longrightarrow> has_size (write_average_people_distance lib f v) w h) \<and>
      (\<forall>f c r col t w h. has_size f w h \<longrightarrow> has_size (circle lib f c r col t) w h))"

text \<open>The four rasters of the state are all 350 pixels wide and 300 high.\<close>

definition resolution_ok :: "'sub app \<Rightarrow> bool" where
  "resolution_ok a =
     ((case frame a of None \<Rightarrow> False | Some f \<Rightarrow> has_size f 350 300) \<and>
      (case gray a of None \<Rightarrow> False | Some g \<Rightarrow> has_size g 350 300) \<and>
      has_size (background a) 350 300 \<and> has_size (heatmap a) 350 300)"

section \<open>A deterministic stand-in for the libraries\<close>

text \<open>
  Concrete functions for every field of the interface, to run the model on concrete
  inputs: the detector reports two people, every image has the one contour \<open>[(0, 0)]\<close>,
  a contour matches when it is in the list, and deleting it returns the list without it.
\<close>

definition fake_lib :: "(nat, box list) cv_lib" where
  "fake_lib =
     \<lparr>resize_color = (\<lambda>f (w, h). replicate h (replicate w (0, 0, 0))),
      resize_gray = (\<lambda>g (w, h). replicate h (replicate w 0)),
      cvtColor_BGR2GRAY = map (map (\<lambda>(b, g, r). g)),
      detectMultiScale = (\<lambda>f. [(0, 0, 1, 1), (5, 5, 1, 1)]),
      mog2_apply = (\<lambda>s g. (Suc s, g)),
      absdiff = (\<lambda>g b. map2 (map2 (\<lambda>p q. \<bar>p - q\<bar>)) g b),
      contours_work = (\<lambda>g m sh. (g, [[(0, 0)]])),
      np_isin_any = (\<lambda>c d. c \<in> set d),
      np_delete = (\<lambda>d c. Inr (removeAll c d)),
      normalize_small_boxes = (\<lambda>cs n. map (\<lambda>c. case c of [] \<Rightarrow> (0, 0, 0, 0) | (x, y) # r \<Rightarrow> (x, y, 1, 1)) cs),
      filter_bounding_boxes = (\<lambda>hog small n. small),
      get_distance_to_camera = (\<lambda>f bs hh lo up. bs),
      draw_hog_bounding_boxes = (\<lambda>f bs c. f),
      draw_bounding_boxes = (\<lambda>f bs c. f),
      write_people_count = (\<lambda>f n. f),
      draw_distance_between_people = (\<lambda>f d p m. (f, [2, 1, 3])),
      write_average_people_distance = (\<lambda>f v. f),
      py_round = (\<lambda>v n. v),
      circle = (\<lambda>f c r col t. f)\<rparr>"

definition fake_args :: args where
  "fake_args =
     \<lparr>show_hog_boxes = False, no_filter_optimized_boxes = False, use_mog2 = False,
      no_alarm_count = False, no_alarm_distance = False, show_steps = False\<rparr>"

definition fake_conf :: conf where
  "fake_conf =
     \<lparr>camera_height = 3, camera_lower_angle = 10, camera_upper_angle = 60,
      max_people_allowed = 1, min_distance_allowed = 2\<rparr>"

definition fake_app :: "nat app" where
  "fake_app =
     \<lparr>subtractor = 0, background = [[0]], canvas_background = [[0]],
      contours_background = [[(0, 0)]], frame = None, gray = None,
      heatmap = [[0]], console = []\<rparr>"

section \<open>Rounding, saturation and slices\<close>

lemma cvRound_lower: "of_int a \<le> v \<Longrightarrow> a \<le> cvRound v"
  unfolding cvRound_def Let_def by (auto simp: le_floor_iff) linarith+

lemma cvRound_upper: "v \<le> of_int b \<Longrightarrow> cvRound v \<le> b"
proof -
  assume v: "v \<le> of_int b"
  then have fb: "\<lfloor>v\<rfloor> \<le> b" by (simp add: floor_le_iff)
  show ?thesis
  proof (cases "\<lfloor>v\<rfloor> = b")
    case True
    then have "v - of_int \<lfloor>v\<rfloor> \<le> 0" using v by simp
    then have "v - of_int \<lfloor>v\<rfloor> < 1 / 2" by linarith
    then show ?thesis using True by (simp add: cvRound_def Let_def)
  next
    case False
    then have "\<lfloor>v\<rfloor> + 1 \<le> b" using fb by linarith
    then show ?thesis using fb by (simp add: cvRound_def Let_def)
  qed
qed

lemma cvRound_brighten: "cvRound (of_int p + 51 / 4) = p + 13"
proof -
  have "\<lfloor>of_int p + (51::rat) / 4\<rfloor> = p + 12" by linarith
  then show ?thesis by (simp add: cvRound_def Let_def)
qed

lemma saturate_cast_u8_range: "0 \<le> saturate_cast_u8 v \<and> saturate_cast_u8 v \<le> 255"
  by (simp add: saturate_cast_u8_def Let_def)

lemma saturate_cast_u8_id: "0 \<le> cvRound v \<Longrightarrow> cvRound v \<le> 255 \<Longrightarrow> saturate_cast_u8 v = cvRound v"
  by (simp add: saturate_cast_u8_def Let_def)

lemma slice_bounds_le:
  "fst (slice_bounds n s e) \<le> snd (slice_bounds n s e) \<and> snd (slice_bounds n s e) \<le> n"
  by (auto simp: slice_bounds_def slice_index_def Let_def)

lemma slice_bounds_nonneg:
  "0 \<le> s \<Longrightarrow> 0 \<le> w \<Longrightarrow> slice_bounds n s (s + w) = (min (nat s) n, min (nat (s + w)) n)"
  by (auto simp: slice_bounds_def slice_index_def Let_def)

lemma length_set_slice:
  "fst b \<le> snd b \<Longrightarrow> snd b \<le> length xs \<Longrightarrow> length new = snd b - fst b \<Longrightarrow>
   length (set_slice b xs new) = length xs"
  by (simp add: set_slice_def)

lemma length_get_slice:
  "snd b \<le> length xs \<Longrightarrow> length (get_slice b xs) = snd b - fst b"
  by (simp add: get_slice_def)

lemma set_slice_map_nth:
  assumes "fst b \<le> snd b" "snd b \<le> length xs" "i < length xs"
  shows "set_slice b xs (map f (get_slice b xs)) ! i =
         (if fst b \<le> i \<and> i < snd b then f (xs ! i) else xs ! i)"
  using assms by (auto simp: set_slice_def get_slice_def nth_append)

lemma list_all_set_slice:
  "list_all P xs \<Longrightarrow> list_all P new \<Longrightarrow> list_all P (set_slice b xs new)"
  by (auto simp: set_slice_def list_all_iff dest: in_set_takeD in_set_dropD)

lemma list_all_get_slice: "list_all P xs \<Longrightarrow> list_all P (get_slice b xs)"
  by (auto simp: get_slice_def list_all_iff dest: in_set_takeD in_set_dropD)

lemma in_u8_addWeighted: "in_u8 (addWeighted a al b be ga)"
  by (auto simp: in_u8_def addWeighted_def list_all_iff saturate_cast_u8_range dest!: set_zip_leftD)

lemma in_u8_assign_sub_image:
  assumes "in_u8 hm" "in_u8 res"
  shows "in_u8 (assign_sub_image hm b res)"
proof -
  let ?P = "list_all (\<lambda>p::int. 0 \<le> p \<and> p \<le> 255)"
  have "?P (set_slice (col_bounds row b) row new)"
    if "(row, new) \<in> set (zip (get_slice (row_bounds hm b) hm) res)" for row new
  proof -
    from that have "row \<in> set (get_slice (row_bounds hm b) hm)" and "new \<in> set res"
      by (auto dest: set_zip_leftD set_zip_rightD)
    then have "?P row" and "?P new"
      using assms list_all_get_slice [of ?P hm "row_bounds hm b"]
      by (auto simp: in_u8_def list_all_iff)
    then show ?thesis by (rule list_all_set_slice)
  qed
  then have "list_all ?P
      (map2 (\<lambda>row new. set_slice (col_bounds row b) row new) (get_slice (row_bounds hm b) hm) res)"
    by (auto simp: list_all_iff)
  with assms(1) show ?thesis
    unfolding in_u8_def assign_sub_image_def by (intro list_all_set_slice) 
qed

lemma in_u8_draw_box: "in_u8 hm \<Longrightarrow> in_u8 (draw_box hm b)"
  by (simp add: draw_box_def Let_def in_u8_assign_sub_image in_u8_addWeighted)

lemma in_u8_draw_heatmap: "in_u8 hm \<Longrightarrow> in_u8 (draw_heatmap hm boxes)"
  unfolding draw_heatmap_def by (induction boxes arbitrary: hm) (simp_all add: in_u8_draw_box)

lemma in_u8_darken_heatmap: "in_u8 (darken_heatmap hm)"
  by (simp add: darken_heatmap_def Let_def in_u8_addWeighted)

lemma addWeighted_const:
  "addWeighted a al (map (map (\<lambda>_. c)) a) be ga =
   map (map (\<lambda>p. saturate_cast_u8 (of_int p * al + of_int c * be + ga))) a"
  by (simp add: addWeighted_def zip_map2 zip_same_conv_map comp_def)


lemma draw_box_struct:
  "draw_box hm b =
     set_slice (row_bounds hm b) hm
       (map (\<lambda>row. set_slice (col_bounds row b) row
                      (map (\<lambda>p. saturate_cast_u8 (of_int p * 1 + of_int (1 * 255) * (1 / 20) + 0))
                           (get_slice (col_bounds row b) row)))
            (get_slice (row_bounds hm b) hm))"
  by (simp add: draw_box_def Let_def assign_sub_image_def sub_image_def ones_times_255_def
      addWeighted_const zip_map2 zip_same_conv_map comp_def)

lemma row_bounds_le:
  "fst (row_bounds hm b) \<le> snd (row_bounds hm b) \<and> snd (row_bounds hm b) \<le> length hm"
  by (cases b) (simp add: row_bounds_def slice_bounds_le)

lemma col_bounds_le:
  "fst (col_bounds row b) \<le> snd (col_bounds row b) \<and> snd (col_bounds row b) \<le> length row"
  by (cases b) (simp add: col_bounds_def slice_bounds_le)

lemma length_brighten_row:
  "length (set_slice (col_bounds row b) row (map g (get_slice (col_bounds row b) row))) = length row"
  using col_bounds_le [of row b] by (simp add: length_set_slice length_get_slice)

lemma length_draw_box: "length (draw_box hm b) = length hm"
  unfolding draw_box_struct using row_bounds_le [of hm b]
  by (simp add: length_set_slice length_get_slice)

lemma draw_box_nth:
  assumes "i < length hm"
  shows "draw_box hm b ! i =
     (if fst (row_bounds hm b) \<le> i \<and> i < snd (row_bounds hm b)
      then set_slice (col_bounds (hm ! i) b) (hm ! i)
                      (map (\<lambda>p. saturate_cast_u8 (of_int p * 1 + of_int (1 * 255) * (1 / 20) + 0))
                           (get_slice (col_bounds (hm ! i) b) (hm ! i)))
      else hm ! i)"
  unfolding draw_box_struct using row_bounds_le [of hm b] assms
  by (simp add: set_slice_map_nth)

lemma brighten_pixel:
  assumes "0 \<le> p"
  shows "saturate_cast_u8 (of_int p * 1 + of_int (1 * 255) * (1 / 20) + 0) = min 255 (p + 13)"
proof -
  have e: "of_int p * 1 + of_int (1 * 255) * (1 / 20) + 0 = of_int p + (51::rat) / 4" by simp
  have "saturate_cast_u8 (of_int p + 51 / 4) = min 255 (p + 13)"
    using assms by (simp add: saturate_cast_u8_def Let_def cvRound_brighten)
  then show ?thesis by (simp only: e)
qed

lemma spec_add_white_eq: "spec_add_white p = min 255 (p + 13)"
proof -
  have "of_int p + 1 / 20 * 255 = of_int p + (51::rat) / 4" by simp
  then show ?thesis by (simp add: spec_add_white_def cvRound_brighten)
qed


lemma darken_pixel:
  assumes "0 \<le> p" "p \<le> 255"
  shows "saturate_cast_u8 (of_int p * (9 / 10) + of_int 0 * (1 / 2) + 0) = spec_scale_pixel p"
proof -
  have e: "of_int p * (9 / 10) + of_int 0 * (1 / 2) + 0 = 9 / 10 * (of_int p :: rat)" by simp
  have "(of_int 0 :: rat) \<le> 9 / 10 * of_int p" using assms by simp
  then have lo: "0 \<le> cvRound (9 / 10 * of_int p)" by (rule cvRound_lower)
  have "9 / 10 * (of_int p :: rat) \<le> of_int 255" using assms by simp
  then have hi: "cvRound (9 / 10 * of_int p) \<le> 255" by (rule cvRound_upper)
  show ?thesis
    unfolding e spec_scale_pixel_def using lo hi by (rule saturate_cast_u8_id)
qed

lemma darken_pixel_normal:
  "0 \<le> p \<Longrightarrow> p \<le> 255 \<Longrightarrow> saturate_cast_u8 (of_int p * 9 / 10) = spec_scale_pixel p"
  using darken_pixel [of p] by simp

lemma brighten_pixel_normal:
  "0 \<le> p \<Longrightarrow> saturate_cast_u8 (of_int p + 51 / 4) = min 255 (p + 13)"
  using brighten_pixel [of p] by simp

lemma darken_heatmap_struct:
  "darken_heatmap hm =
     map (map (\<lambda>p. saturate_cast_u8 (of_int p * (9 / 10) + of_int 0 * (1 / 2) + 0))) hm"
  by (simp only: darken_heatmap_def Let_def zeros_like_def addWeighted_const)

lemma darken_refines: "in_u8 hm \<Longrightarrow> darken_heatmap hm = spec_darken hm"
  unfolding darken_heatmap_struct spec_darken_def in_u8_def
  by (auto simp: list_all_iff darken_pixel_normal)

lemma under_box_bounds:
  assumes "box_in_quadrant b" "i < length hm" "j < length row"
  shows "under_box b i j \<longleftrightarrow>
     (fst (row_bounds hm b) \<le> i \<and> i < snd (row_bounds hm b)) \<and>
     (fst (col_bounds row b) \<le> j \<and> j < snd (col_bounds row b))"
  using assms
  by (cases b) (auto simp: box_in_quadrant_def under_box_def row_bounds_def col_bounds_def
      slice_bounds_nonneg)

lemma brighten_refines:
  assumes "in_u8 hm" "box_in_quadrant b"
  shows "draw_box hm b = spec_brighten hm b"
proof (rule nth_equalityI)
  show "length (draw_box hm b) = length (spec_brighten hm b)"
    by (simp add: length_draw_box spec_brighten_def)
next
  fix i assume "i < length (draw_box hm b)"
  then have i: "i < length hm" by (simp add: length_draw_box)
  let ?row = "hm ! i"
  let ?g = "\<lambda>p. saturate_cast_u8 (of_int p * 1 + of_int (1 * 255) * (1 / 20) + 0)"
  have row: "list_all (\<lambda>p. 0 \<le> p \<and> p \<le> 255) ?row"
    using assms(1) i by (simp add: in_u8_def list_all_length)
  have cb: "fst (col_bounds ?row b) \<le> snd (col_bounds ?row b)" "snd (col_bounds ?row b) \<le> length ?row"
    using col_bounds_le [of ?row b] by simp_all
  show "draw_box hm b ! i = spec_brighten hm b ! i"
  proof (rule nth_equalityI)
    show "length (draw_box hm b ! i) = length (spec_brighten hm b ! i)"
      using i by (simp add: draw_box_nth length_brighten_row spec_brighten_def nth_enumerate_eq)
  next
    fix j assume "j < length (draw_box hm b ! i)"
    then have j: "j < length ?row"
      using i by (simp add: draw_box_nth length_brighten_row split: if_splits)
    have p: "0 \<le> ?row ! j" using row j by (simp add: list_all_length)
    show "draw_box hm b ! i ! j = spec_brighten hm b ! i ! j"
      using i j cb under_box_bounds [OF assms(2) i j] p
      by (simp add: draw_box_nth set_slice_map_nth spec_brighten_def nth_enumerate_eq
          brighten_pixel_normal spec_add_white_eq)
  qed
qed

section \<open>The range of the heatmap\<close>

text \<open>
  C6. From a heatmap whose pixels are all in \<open>0..255\<close>, every sequence of darken and
  brighten operations leaves every pixel in \<open>0..255\<close>. The brighten step saturates: under
  a box a pixel \<open>p\<close> becomes \<open>min 255 (p + 13)\<close>, never \<open>(p + 13) mod 256\<close>, and a pixel
  outside the box keeps its value.
\<close>

theorem heatmap_stays_in_u8:
  assumes "in_u8 hm"
  shows "in_u8 (foldl apply_heatmap_op hm ops) \<and>
         (box_in_quadrant b \<longrightarrow>
            (\<forall>i < length hm. \<forall>j < length (hm ! i).
               draw_box hm b ! i ! j =
                 (if under_box b i j then min 255 (hm ! i ! j + 13) else hm ! i ! j)))"
proof
  have step: "in_u8 (apply_heatmap_op h ope)" if "in_u8 h" for h ope
    using that by (cases ope) (simp_all add: in_u8_darken_heatmap in_u8_draw_heatmap)
  show "in_u8 (foldl apply_heatmap_op hm ops)"
    using assms by (induction ops arbitrary: hm) (simp_all add: step)
next
  show "box_in_quadrant b \<longrightarrow>
          (\<forall>i < length hm. \<forall>j < length (hm ! i).
             draw_box hm b ! i ! j =
               (if under_box b i j then min 255 (hm ! i ! j + 13) else hm ! i ! j))"
    using assms
    by (simp add: brighten_refines spec_brighten_def nth_enumerate_eq spec_add_white_eq)
qed

theorem heatmap_stays_in_u8_witness:
  "in_u8 [[0, 250], [100, 7]] \<and>
   in_u8 (foldl apply_heatmap_op [[0, 250], [100, 7]]
            [Brighten [(0, 0, 2, 1)], Darken, Brighten [(1, 0, 1, 2), (1, 0, 1, 1)]]) \<and>
   box_in_quadrant (1, 0, 1, 1) \<and>
   draw_box [[0, 250], [100, 7]] (1, 0, 1, 1) ! 0 ! 1 = 255"
proof -
  have h: "in_u8 [[0, 250], [100, 7]]" by (simp add: in_u8_def)
  have b: "box_in_quadrant (1, 0, 1, 1)" by (simp add: box_in_quadrant_def)
  have u: "under_box (1, 0, 1, 1) 0 1" by (simp add: under_box_def)
  show ?thesis
    using h b u
      heatmap_stays_in_u8 [OF h, of
        "[Brighten [(0, 0, 2, 1)], Darken, Brighten [(1, 0, 1, 2), (1, 0, 1, 1)]]" "(1, 0, 1, 1)"]
    by simp
qed

section \<open>The heatmap operations against the words of the specification\<close>

text \<open>
  C7. On a heatmap with pixels in \<open>0..255\<close>, the darken step (the weighted add of 0.9
  times the heatmap and 0.5 times a black overlay) is the raster with every pixel scaled
  by 0.9 and rounded; and the brighten step over boxes with non-negative corner and
  extent is, box after box, the raster with \<open>0.05 \<sqdot> 255\<close> added to every pixel under the
  box, saturating at 255.
\<close>

theorem heatmap_refines_spec:
  assumes "in_u8 hm" "list_all box_in_quadrant boxes"
  shows "darken_heatmap hm = spec_darken hm \<and>
         draw_heatmap hm boxes = foldl spec_brighten hm boxes"
proof
  show "darken_heatmap hm = spec_darken hm" using assms(1) by (rule darken_refines)
next
  show "draw_heatmap hm boxes = foldl spec_brighten hm boxes"
    unfolding draw_heatmap_def using assms
  proof (induction boxes arbitrary: hm)
    case Nil
    then show ?case by simp
  next
    case (Cons b bs)
    from Cons.prems have e: "draw_box hm b = spec_brighten hm b"
      by (simp add: brighten_refines)
    have "in_u8 (draw_box hm b)" using Cons.prems(1) by (rule in_u8_draw_box)
    with Cons.IH [of "draw_box hm b"] Cons.prems(2) show ?case by (simp add: e)
  qed
qed

theorem heatmap_refines_spec_witness:
  "in_u8 [[5, 250], [15, 0]] \<and> list_all box_in_quadrant [(1, 0, 1, 1), (0, 0, 2, 2)] \<and>
   darken_heatmap [[5, 250], [15, 0]] = spec_darken [[5, 250], [15, 0]] \<and>
   draw_heatmap [[5, 250], [15, 0]] [(1, 0, 1, 1), (0, 0, 2, 2)] =
     foldl spec_brighten [[5, 250], [15, 0]] [(1, 0, 1, 1), (0, 0, 2, 2)]"
proof -
  have h: "in_u8 [[5, 250], [15, 0]]" by (simp add: in_u8_def)
  have b: "list_all box_in_quadrant [(1, 0, 1, 1), (0, 0, 2, 2)]"
    by (simp add: box_in_quadrant_def)
  show ?thesis using h b heatmap_refines_spec [OF h b] by simp
qed

section \<open>The exclusion of background contours\<close>

lemma caught_errors_Nil: "caught_errors lib [] d = []"
  by (simp add: caught_errors_def)

lemma caught_errors_Cons:
  "caught_errors lib (c # cs) d =
     (if np_isin_any lib c d
      then (case np_delete lib d c of Inl (IndexError msg) \<Rightarrow> [ErrorLine msg] | _ \<Rightarrow> [])
      else []) @ caught_errors lib cs d"
  by (simp add: caught_errors_def)

lemma remove_common_contours_result:
  "remove_common_contours lib cs diff_contours out = Inr (d, out') \<Longrightarrow>
   d = diff_contours \<and> out' = out @ caught_errors lib cs diff_contours"
proof (induction cs arbitrary: out)
  case Nil
  then show ?case by (simp add: caught_errors_Nil)
next
  case (Cons c cs)
  show ?case
  proof (cases "np_isin_any lib c diff_contours")
    case False
    with Cons show ?thesis by (simp add: caught_errors_Cons)
  next
    case True
    show ?thesis
    proof (cases "np_delete lib diff_contours c")
      case (Inr r)
      with True Cons show ?thesis by (simp add: caught_errors_Cons)
    next
      case (Inl e)
      show ?thesis
      proof (cases e)
        case (IndexError msg)
        with Inl True Cons.prems
        have "remove_common_contours lib cs diff_contours (out @ [ErrorLine msg]) = Inr (d, out')"
          by simp
        from Cons.IH [OF this] show ?thesis
          using Inl True IndexError by (simp add: caught_errors_Cons)
      qed (use Inl True Cons.prems in simp_all)
    qed
  qed
qed

lemma remove_common_contours_returns:
  assumes "\<forall>c \<in> set cs. \<forall>e. np_delete lib diff_contours c = Inl e \<longrightarrow> is_IndexError e"
  shows "remove_common_contours lib cs diff_contours out =
           Inr (diff_contours, out @ caught_errors lib cs diff_contours)"
  using assms
proof (induction cs arbitrary: out)
  case Nil
  then show ?case by (simp add: caught_errors_Nil)
next
  case (Cons c cs)
  then have IH: "remove_common_contours lib cs diff_contours out' =
           Inr (diff_contours, out' @ caught_errors lib cs diff_contours)" for out'
    by simp
  show ?case
  proof (cases "np_isin_any lib c diff_contours")
    case False
    then show ?thesis by (simp add: caught_errors_Cons IH)
  next
    case True
    show ?thesis
    proof (cases "np_delete lib diff_contours c")
      case (Inr r)
      with True show ?thesis by (simp add: caught_errors_Cons IH)
    next
      case (Inl e)
      with Cons.prems have "is_IndexError e" by simp
      with Inl True show ?thesis by (cases e) (simp_all add: caught_errors_Cons IH)
    qed
  qed
qed

lemma list_all_caught_errors: "list_all is_error_line (caught_errors lib cs d)"
  by (induction cs) (auto simp: caught_errors_Nil caught_errors_Cons split: sum.splits py_error.splits)

lemma refresh_background_frame:
  "console (refresh_background lib mog2 g a) = console a"
  "contours_background (refresh_background lib mog2 g a) = contours_background a"
  "frame (refresh_background lib mog2 g a) = frame a"
  "gray (refresh_background lib mog2 g a) = gray a"
  "heatmap (refresh_background lib mog2 g a) = heatmap a"
  by (simp_all add: refresh_background_def split: prod.splits)

text \<open>
  C5. When deleting a matching contour raises nothing but \<^verbatim>\<open>IndexError\<close>, object
  detection returns normally for every state that holds a grayscale frame: each such
  error is caught and printed (one line per matching contour whose deletion raised), and
  the boxes are those of the contour list as it stood before the exclusion loop.
\<close>

theorem exclusion_catches_IndexError:
  assumes "gray a = Some g"
    and "\<forall>d c e. np_delete lib d c = Inl e \<longrightarrow> is_IndexError e"
  shows "do_object_detection lib mog2 a =
           Inr (normalize_small_boxes lib (segment_contours lib g (refresh_background lib mog2 g a)) 200,
                (refresh_background lib mog2 g a)
                  \<lparr>console := console a @
                     caught_errors lib (contours_background a)
                       (segment_contours lib g (refresh_background lib mog2 g a))\<rparr>)"
proof -
  let ?a1 = "refresh_background lib mog2 g a"
  have "remove_common_contours lib (contours_background ?a1) (segment_contours lib g ?a1) (console ?a1) =
        Inr (segment_contours lib g ?a1,
             console ?a1 @ caught_errors lib (contours_background ?a1) (segment_contours lib g ?a1))"
    using assms(2) by (intro remove_common_contours_returns) simp
  then show ?thesis
    using assms(1) by (simp add: do_object_detection_def Let_def refresh_background_frame)
qed


section \<open>The steps of one turn of the loop\<close>

lemma foldl_min_eq: "foldl (\<lambda>m y. if y < m then y else m) (x::real) xs = Min (insert x (set xs))"
proof (induction xs arbitrary: x)
  case Nil
  then show ?case by simp
next
  case (Cons y ys)
  have m: "(if y < x then y else x) = min x y" by (simp add: min_def)
  have "Min (insert (min x y) (set ys)) = Min (insert x (insert y (set ys)))"
  proof (cases "set ys = {}")
    case True
    then show ?thesis by simp
  next
    case False
    then have "Min (insert (min x y) (set ys)) = min (min x y) (Min (set ys))"
      and "Min (insert x (insert y (set ys))) = min x (min y (Min (set ys)))"
      by (simp_all only: Min_insert List.finite_set finite_insert insert_not_empty not_False_eq_True)
    then show ?thesis by (simp only: min.assoc)
  qed
  with Cons [of "min x y"] show ?case by (simp only: foldl_Cons m list.set)
qed

lemma py_min_eq: "distances \<noteq> [] \<Longrightarrow> py_min distances = Inr (Min (set distances))"
  by (cases distances) (simp_all add: foldl_min_eq)

lemma read_frame_fields:
  "frame (read_frame lib raw a) = Some (resize_color lib raw (350, 300))"
  "gray (read_frame lib raw a) = Some (cvtColor_BGR2GRAY lib (resize_color lib raw (350, 300)))"
  "console (read_frame lib raw a) = console a"
  "heatmap (read_frame lib raw a) = heatmap a"
  "background (read_frame lib raw a) = background a"
  "contours_background (read_frame lib raw a) = contours_background a"
  "subtractor (read_frame lib raw a) = subtractor a"
  by (simp_all add: read_frame_def Let_def)

lemma do_object_detection_result:
  assumes "do_object_detection lib mog2 a = Inr (small, a')"
  shows "\<exists>g. gray a = Some g \<and>
           small = normalize_small_boxes lib (segment_contours lib g (refresh_background lib mog2 g a)) 200 \<and>
           a' = (refresh_background lib mog2 g a)
                  \<lparr>console := console a @ caught_errors lib (contours_background a)
                       (segment_contours lib g (refresh_background lib mog2 g a))\<rparr>"
proof (cases "gray a")
  case None
  with assms show ?thesis by (simp add: do_object_detection_def)
next
  case (Some g)
  let ?a1 = "refresh_background lib mog2 g a"
  from assms Some obtain d out where
    r: "remove_common_contours lib (contours_background ?a1) (segment_contours lib g ?a1) (console ?a1) = Inr (d, out)"
    and s: "small = normalize_small_boxes lib d 200" and a': "a' = ?a1\<lparr>console := out\<rparr>"
    by (auto simp: do_object_detection_def Let_def split: sum.splits)
  from remove_common_contours_result [OF r] s a' Some show ?thesis
    by (simp add: refresh_background_frame)
qed

lemma do_object_detection_fields:
  assumes "do_object_detection lib mog2 a = Inr (small, a')"
  shows "frame a' = frame a" "gray a' = gray a" "heatmap a' = heatmap a"
    "contours_background a' = contours_background a"
    "\<exists>es. console a' = console a @ es \<and> list_all is_error_line es"
    "\<not> mog2 \<Longrightarrow> background a' = background a"
proof -
  from do_object_detection_result [OF assms] obtain g where
    a': "a' = (refresh_background lib mog2 g a)
                  \<lparr>console := console a @ caught_errors lib (contours_background a)
                       (segment_contours lib g (refresh_background lib mog2 g a))\<rparr>"
    by blast
  show "frame a' = frame a" "gray a' = gray a" "heatmap a' = heatmap a"
    "contours_background a' = contours_background a"
    by (simp_all add: a' refresh_background_frame)
  show "\<exists>es. console a' = console a @ es \<and> list_all is_error_line es"
    by (simp add: a' list_all_caught_errors)
  show "\<not> mog2 \<Longrightarrow> background a' = background a"
    by (simp add: a' refresh_background_def)
qed

lemma detect_result:
  assumes "detect lib ar a = Inr (hog, small, a1)"
  shows "\<exists>f. frame a = Some f \<and> hog = detectMultiScale lib f"
    and "do_object_detection lib (use_mog2 ar) a = Inr (small, a1)"
  using assms
  by (auto simp: detect_def do_hog_svm_def split: sum.splits option.splits)

lemma annotate_result:
  assumes "annotate lib ar cf hog small a = Inr (ds, a2)"
  shows "console a2 = console a" "heatmap a2 = heatmap a" "background a2 = background a"
    "gray a2 = gray a" "\<exists>f. frame a2 = Some f"
  using assms
  by (auto simp: annotate_def Let_def split: option.splits prod.splits)

lemma annotate_returns:
  assumes "frame a = Some f"
  shows "\<exists>ds a2. annotate lib ar cf hog small a = Inr (ds, a2)"
  using assms
  by (auto simp: annotate_def Let_def split: option.splits prod.splits)

lemma count_alarm_result:
  assumes "frame a = Some f"
  shows "\<exists>a3. count_alarm lib ar cf hog a = Inr a3 \<and>
           console a3 = console a @
             (if \<not> no_alarm_count ar \<and> max_people_allowed cf < int (length hog)
              then [PeopleCountAlarm (length hog) (max_people_allowed cf)] else []) \<and>
           heatmap a3 = heatmap a \<and> background a3 = background a \<and> gray a3 = gray a \<and>
           (frame a3 = Some f \<or> frame a3 = Some (circle lib f (335, 265) 3 (0, 128, 255) 5))"
  using assms by (auto simp: count_alarm_def Let_def)

lemma distance_alarm_result:
  assumes "frame a = Some f"
  shows "\<exists>a4. distance_alarm lib ar cf ds a = Inr a4 \<and>
           console a4 = console a @
             (if \<not> no_alarm_distance ar \<and> ds \<noteq> [] \<and> Min (set ds) < min_distance_allowed cf
              then [PeopleDistanceAlarm (py_round lib (Min (set ds)) 2) (min_distance_allowed cf)]
              else []) \<and>
           heatmap a4 = heatmap a \<and> background a4 = background a \<and> gray a4 = gray a \<and>
           (frame a4 = Some f \<or> frame a4 = Some (circle lib f (335, 285) 3 (0, 0, 255) 5))"
proof (cases "ds = []")
  case True
  with assms show ?thesis by (auto simp: distance_alarm_def)
next
  case False
  with assms show ?thesis by (auto simp: distance_alarm_def Let_def py_min_eq)
qed

lemma update_heatmap_fields:
  "frame (update_heatmap n small a) = frame a"
  "gray (update_heatmap n small a) = gray a"
  "console (update_heatmap n small a) = console a"
  "background (update_heatmap n small a) = background a"
  "heatmap (update_heatmap n small a) =
     (if n mod 10 = 0 then draw_heatmap (darken_heatmap (heatmap a)) small else heatmap a)"
  by (simp_all add: update_heatmap_def Let_def)

lemma filter_alarms_error_lines:
  "list_all is_error_line es \<Longrightarrow>
   filter is_count_alarm es = [] \<and> filter is_distance_alarm es = []"
proof (induction es)
  case Nil
  then show ?case by simp
next
  case (Cons l es)
  then show ?case by (cases l) simp_all
qed

lemma loop_body_result:
  assumes d: "detect lib ar (read_frame lib raw a) = Inr (hog, small, a1)"
    and an: "annotate lib ar cf hog small a1 = Inr (ds, a2)"
  shows "\<exists>a' es. loop_body lib ar cf n raw a = Inr a' \<and> list_all is_error_line es \<and>
           console a' = console a @ es @
             (if \<not> no_alarm_count ar \<and> max_people_allowed cf < int (length hog)
              then [PeopleCountAlarm (length hog) (max_people_allowed cf)] else []) @
             (if \<not> no_alarm_distance ar \<and> ds \<noteq> [] \<and> Min (set ds) < min_distance_allowed cf
              then [PeopleDistanceAlarm (py_round lib (Min (set ds)) 2) (min_distance_allowed cf)]
              else []) \<and>
           heatmap a' =
             (if n mod 10 = 0 then draw_heatmap (darken_heatmap (heatmap a)) small else heatmap a)"
proof -
  from detect_result(2) [OF d]
  have od: "do_object_detection lib (use_mog2 ar) (read_frame lib raw a) = Inr (small, a1)" .
  from do_object_detection_fields(5) [OF od] obtain es where
    es: "console a1 = console a @ es" "list_all is_error_line es"
    by (auto simp: read_frame_fields)
  have h1: "heatmap a1 = heatmap a"
    using do_object_detection_fields(3) [OF od] by (simp add: read_frame_fields)
  from annotate_result [OF an] obtain f2 where
    a2: "console a2 = console a1" "heatmap a2 = heatmap a1" "frame a2 = Some f2" by blast
  from count_alarm_result [OF a2(3), of lib ar cf hog] obtain a3 f3 where
    a3: "count_alarm lib ar cf hog a2 = Inr a3"
      "console a3 = console a2 @
         (if \<not> no_alarm_count ar \<and> max_people_allowed cf < int (length hog)
          then [PeopleCountAlarm (length hog) (max_people_allowed cf)] else [])"
      "heatmap a3 = heatmap a2" "frame a3 = Some f3"
    by blast
  from distance_alarm_result [OF a3(4), of lib ar cf ds] obtain a4 where
    a4: "distance_alarm lib ar cf ds a3 = Inr a4"
      "console a4 = console a3 @
         (if \<not> no_alarm_distance ar \<and> ds \<noteq> [] \<and> Min (set ds) < min_distance_allowed cf
          then [PeopleDistanceAlarm (py_round lib (Min (set ds)) 2) (min_distance_allowed cf)]
          else [])"
      "heatmap a4 = heatmap a3"
    by blast
  have lb: "loop_body lib ar cf n raw a = Inr (update_heatmap n small a4)"
    by (simp add: loop_body_def d an a3(1) a4(1))
  show ?thesis
    apply (rule exI [of _ "update_heatmap n small a4"])
    apply (rule exI [of _ es])
    apply (simp only: lb update_heatmap_fields a4 a3 a2 es h1)
    apply simp
    done
qed

text \<open>
  C3. In a turn of the loop whose detection returned, the turn completes and the people
  count alarm lines it printed are: exactly one line, with the current and the maximum
  count, when the flag \<^verbatim>\<open>--no-alarm-count\<close> is off and the number of HOG boxes is above
  \<^verbatim>\<open>max_people\<close>; and none otherwise (in particular none when the flag is set). The
  HOG boxes are those of the detector on the resized frame, and the console keeps what it
  held before.
\<close>

theorem count_alarm_iff:
  assumes "detect lib ar (read_frame lib raw a) = Inr (hog_boxes, small_boxes, a1)"
  shows "hog_boxes = detectMultiScale lib (resize_color lib raw (350, 300)) \<and>
         (\<exists>a'. loop_body lib ar cf n raw a = Inr a' \<and>
            take (length (console a)) (console a') = console a \<and>
            filter is_count_alarm (printed a a') =
              (if \<not> no_alarm_count ar \<and> max_people_allowed cf < int (length hog_boxes)
               then [PeopleCountAlarm (length hog_boxes) (max_people_allowed cf)] else []))"
proof
  show "hog_boxes = detectMultiScale lib (resize_color lib raw (350, 300))"
    using detect_result(1) [OF assms] by (simp add: read_frame_fields)
next
  have "\<exists>f. frame a1 = Some f"
    using detect_result(1) [OF assms] do_object_detection_fields(1) [OF detect_result(2) [OF assms]]
    by auto
  then obtain f ds a2 where an: "annotate lib ar cf hog_boxes small_boxes a1 = Inr (ds, a2)"
    using annotate_returns by blast
  from loop_body_result [OF assms an, of n] obtain a' es where
    r: "loop_body lib ar cf n raw a = Inr a'" "list_all is_error_line es"
       "console a' = console a @ es @
             (if \<not> no_alarm_count ar \<and> max_people_allowed cf < int (length hog_boxes)
              then [PeopleCountAlarm (length hog_boxes) (max_people_allowed cf)] else []) @
             (if \<not> no_alarm_distance ar \<and> ds \<noteq> [] \<and> Min (set ds) < min_distance_allowed cf
              then [PeopleDistanceAlarm (py_round lib (Min (set ds)) 2) (min_distance_allowed cf)]
              else [])"
    by blast
  show "\<exists>a'. loop_body lib ar cf n raw a = Inr a' \<and>
            take (length (console a)) (console a') = console a \<and>
            filter is_count_alarm (printed a a') =
              (if \<not> no_alarm_count ar \<and> max_people_allowed cf < int (length hog_boxes)
               then [PeopleCountAlarm (length hog_boxes) (max_people_allowed cf)] else [])"
    using r(1) filter_alarms_error_lines [OF r(2)]
    by (simp add: printed_def r(3))
qed

text \<open>
  C4. In a turn of the loop with the list \<^verbatim>\<open>distances\<close>, the people distance alarm lines
  printed are: exactly one line when the flag \<^verbatim>\<open>--no-alarm-distance\<close> is off, the list
  is not empty and its minimum is below \<^verbatim>\<open>min_distance\<close>; none otherwise. The turn
  returns without an error, and on no distance the alarm step returns the state as it is
  (\<^verbatim>\<open>min\<close> is never called on the empty list).
\<close>

theorem distance_alarm_iff:
  assumes "detect lib ar (read_frame lib raw a) = Inr (hog_boxes, small_boxes, a1)"
    and "annotate lib ar cf hog_boxes small_boxes a1 = Inr (distances, a2)"
  shows "(\<exists>a'. loop_body lib ar cf n raw a = Inr a' \<and>
            filter is_distance_alarm (printed a a') =
              (if \<not> no_alarm_distance ar \<and> distances \<noteq> [] \<and>
                  Min (set distances) < min_distance_allowed cf
               then [PeopleDistanceAlarm (py_round lib (Min (set distances)) 2)
                       (min_distance_allowed cf)]
               else [])) \<and>
         distance_alarm lib ar cf [] a3 = Inr a3"
proof
  from loop_body_result [OF assms, of n] obtain a' es where
    r: "loop_body lib ar cf n raw a = Inr a'" "list_all is_error_line es"
       "console a' = console a @ es @
             (if \<not> no_alarm_count ar \<and> max_people_allowed cf < int (length hog_boxes)
              then [PeopleCountAlarm (length hog_boxes) (max_people_allowed cf)] else []) @
             (if \<not> no_alarm_distance ar \<and> distances \<noteq> [] \<and>
                 Min (set distances) < min_distance_allowed cf
              then [PeopleDistanceAlarm (py_round lib (Min (set distances)) 2)
                      (min_distance_allowed cf)]
              else [])"
    by blast
  show "\<exists>a'. loop_body lib ar cf n raw a = Inr a' \<and>
            filter is_distance_alarm (printed a a') =
              (if \<not> no_alarm_distance ar \<and> distances \<noteq> [] \<and>
                  Min (set distances) < min_distance_allowed cf
               then [PeopleDistanceAlarm (py_round lib (Min (set distances)) 2)
                       (min_distance_allowed cf)]
               else [])"
    using r(1) filter_alarms_error_lines [OF r(2)]
    by (simp add: printed_def r(3))
next
  show "distance_alarm lib ar cf [] a3 = Inr a3" by (simp add: distance_alarm_def)
qed


lemma fake_detect:
  "detect fake_lib fake_args (read_frame fake_lib [[(1, 2, 3)]] fake_app) =
     Inr ([(0, 0, 1, 1), (5, 5, 1, 1)], [(0, 0, 1, 1)], read_frame fake_lib [[(1, 2, 3)]] fake_app)"
  by (simp add: detect_def do_hog_svm_def do_object_detection_def read_frame_def
      refresh_background_def segment_contours_def fake_lib_def fake_args_def fake_app_def Let_def)

lemma fake_annotate:
  "\<exists>a2. annotate fake_lib fake_args fake_conf [(0, 0, 1, 1), (5, 5, 1, 1)] [(0, 0, 1, 1)]
          (read_frame fake_lib [[(1, 2, 3)]] fake_app) = Inr ([2, 1, 3], a2)"
  by (simp add: annotate_def read_frame_def fake_lib_def Let_def)

theorem count_alarm_iff_witness:
  "\<exists>a'. loop_body fake_lib fake_args fake_conf 0 [[(1, 2, 3)]] fake_app = Inr a' \<and>
         filter is_count_alarm (printed fake_app a') = [PeopleCountAlarm 2 1]"
  using count_alarm_iff [OF fake_detect, of fake_conf 0]
  by (auto simp: fake_args_def fake_conf_def)

theorem distance_alarm_iff_witness:
  "\<exists>a'. loop_body fake_lib fake_args fake_conf 0 [[(1, 2, 3)]] fake_app = Inr a' \<and>
         filter is_distance_alarm (printed fake_app a') = [PeopleDistanceAlarm 1 2]"
proof -
  from fake_annotate obtain a2 where
    an: "annotate fake_lib fake_args fake_conf [(0, 0, 1, 1), (5, 5, 1, 1)] [(0, 0, 1, 1)]
          (read_frame fake_lib [[(1, 2, 3)]] fake_app) = Inr ([2, 1, 3], a2)" ..
  have m: "Min (set [2, 1, 3 :: real]) = 1" by simp
  from distance_alarm_iff [OF fake_detect an, of 0] show ?thesis
    by (auto simp: fake_args_def fake_conf_def fake_lib_def m)
qed

text \<open>
  C1. A run of \<^verbatim>\<open>do_object_detection\<close> in which the one contour of the difference image
  is the baseline contour of the background: the contour matches, \<^verbatim>\<open>np.delete\<close> returns
  the list without it, and the box of that contour is returned all the same, because the
  loop never assigns what \<^verbatim>\<open>np.delete\<close> returns.
\<close>

theorem exclusion_keeps_matching_contour:
  "contours_background (fake_app\<lparr>gray := Some [[7]]\<rparr>) = [[(0, 0)]] \<and>
   segment_contours fake_lib [[7]] (fake_app\<lparr>gray := Some [[7]]\<rparr>) = [[(0, 0)]] \<and>
   np_isin_any fake_lib [(0, 0)] [[(0, 0)]] \<and>
   np_delete fake_lib [[(0, 0)]] [(0, 0)] = Inr [] \<and>
   do_object_detection fake_lib False (fake_app\<lparr>gray := Some [[7]]\<rparr>) =
     Inr (normalize_small_boxes fake_lib [[(0, 0)]] 200, fake_app\<lparr>gray := Some [[7]]\<rparr>) \<and>
   normalize_small_boxes fake_lib [[(0, 0)]] 200 = [(0, 0, 1, 1)]"
  by (simp add: do_object_detection_def refresh_background_def segment_contours_def
      fake_lib_def fake_app_def Let_def)

section \<open>The loop over the capture\<close>

lemma read_frame_overwrites_frame: "read_frame lib raw (a\<lparr>frame := x\<rparr>) = read_frame lib raw a"
  by (simp add: read_frame_def Let_def)

lemma loop_body_overwrites_frame:
  "loop_body lib ar cf n raw (a\<lparr>frame := x\<rparr>) = loop_body lib ar cf n raw a"
  by (simp add: loop_body_def read_frame_overwrites_frame)

lemma start_loop_snoc:
  assumes "no_quit xs"
  shows "start_loop lib ar cf c (xs @ [(raw, key)]) a =
     (case start_loop lib ar cf c xs a of
        Inl e \<Rightarrow> Inl e
      | Inr an \<Rightarrow>
          (case loop_body lib ar cf (c + int (length xs)) raw an of
             Inl e \<Rightarrow> Inl e
           | Inr a' \<Rightarrow> if key AND 255 = 113 then Inr a' else Inr (a'\<lparr>frame := None\<rparr>)))"
  using assms
proof (induction xs arbitrary: c a)
  case Nil
  show ?case by (simp add: loop_body_overwrites_frame split: sum.splits)
next
  case (Cons x xs)
  obtain r k where x: "x = (r, k)" by (cases x)
  from Cons.prems x have k: "k AND 255 \<noteq> 113" and nq: "no_quit xs"
    by (simp_all add: no_quit_def)
  have c: "c + 1 + int (length xs) = c + int (length (x # xs))" by simp
  show ?case
    by (simp add: x k Cons.IH [OF nq] c [simplified] add.assoc split: sum.splits)
qed

lemma loop_body_stages:
  assumes "loop_body lib ar cf n raw a = Inr a'"
  shows "\<exists>hog small a1 ds a2 a3 a4.
           detect lib ar (read_frame lib raw a) = Inr (hog, small, a1) \<and>
           annotate lib ar cf hog small a1 = Inr (ds, a2) \<and>
           count_alarm lib ar cf hog a2 = Inr a3 \<and>
           distance_alarm lib ar cf ds a3 = Inr a4 \<and>
           a' = update_heatmap n small a4"
  using assms by (auto simp: loop_body_def split: sum.splits prod.splits)

lemma detect_returns_annotate:
  assumes "detect lib ar (read_frame lib raw a) = Inr (hog, small, a1)"
  shows "\<exists>ds a2. annotate lib ar cf hog small a1 = Inr (ds, a2)"
proof -
  have "\<exists>f. frame a1 = Some f"
    using detect_result(1) [OF assms] do_object_detection_fields(1) [OF detect_result(2) [OF assms]]
    by auto
  then show ?thesis using annotate_returns by blast
qed

text \<open>
  C8. After a capture of \<open>n\<close> frames in which \<^verbatim>\<open>q\<close> was not pressed, the turn for the
  next frame (its frame counter is \<open>n\<close>) leaves the heatmap darkened and then brightened
  under the motion boxes of that frame when \<open>n\<close> is divisible by 10, the first frame
  (\<open>n = 0\<close>) included, and leaves the heatmap as it was otherwise.
\<close>

theorem heatmap_every_tenth_frame:
  assumes "no_quit capture"
    and "start lib ar cf capture a = Inr a_n"
    and "detect lib ar (read_frame lib raw a_n) = Inr (hog_boxes, small_boxes, a1)"
  shows "\<exists>a'. start lib ar cf (capture @ [(raw, key)]) a = Inr a' \<and>
           heatmap a' =
             (if int (length capture) mod 10 = 0
              then draw_heatmap (darken_heatmap (heatmap a_n)) small_boxes
              else heatmap a_n)"
proof -
  from detect_returns_annotate [OF assms(3)] obtain ds a2 where
    an: "annotate lib ar cf hog_boxes small_boxes a1 = Inr (ds, a2)" by blast
  from loop_body_result [OF assms(3) an, of "int (length capture)"] obtain a' where
    lb: "loop_body lib ar cf (int (length capture)) raw a_n = Inr a'"
    and h: "heatmap a' =
             (if int (length capture) mod 10 = 0
              then draw_heatmap (darken_heatmap (heatmap a_n)) small_boxes
              else heatmap a_n)"
    by blast
  have "start lib ar cf (capture @ [(raw, key)]) a =
          (if key AND 255 = 113 then Inr a' else Inr (a'\<lparr>frame := None\<rparr>))"
    using assms(2) lb by (simp add: start_def start_loop_snoc [OF assms(1)])
  with h show ?thesis by (cases "key AND 255 = 113") simp_all
qed

lemma refresh_background_overwrites:
  "refresh_background lib True g (a\<lparr>background := b\<rparr>) = refresh_background lib True g a"
  by (simp add: refresh_background_def split: prod.splits)

lemma detect_background_irrelevant:
  assumes "use_mog2 ar"
  shows "detect lib ar (a\<lparr>background := b\<rparr>) = detect lib ar a"
  using assms
  by (simp add: detect_def do_hog_svm_def do_object_detection_def refresh_background_overwrites
      split: option.splits)

lemma loop_body_background_irrelevant:
  assumes "use_mog2 ar"
  shows "loop_body lib ar cf n raw (a\<lparr>background := b\<rparr>) = loop_body lib ar cf n raw a"
proof -
  have "read_frame lib raw (a\<lparr>background := b\<rparr>) = (read_frame lib raw a)\<lparr>background := b\<rparr>"
    by (simp add: read_frame_def Let_def)
  then show ?thesis
    by (simp add: loop_body_def detect_background_irrelevant [OF assms])
qed

lemma loop_body_background:
  assumes "loop_body lib ar cf n raw a = Inr a'"
  shows "background a' =
     (if use_mog2 ar
      then snd (subtractor_work lib (subtractor a)
                  (cvtColor_BGR2GRAY lib (resize_color lib raw (350, 300))))
      else background a)"
proof -
  from loop_body_stages [OF assms] obtain hog small a1 ds a2 a3 a4 where
    s: "detect lib ar (read_frame lib raw a) = Inr (hog, small, a1)"
       "annotate lib ar cf hog small a1 = Inr (ds, a2)"
       "count_alarm lib ar cf hog a2 = Inr a3"
       "distance_alarm lib ar cf ds a3 = Inr a4"
       "a' = update_heatmap n small a4"
    by blast
  from annotate_result [OF s(2)] obtain f2 where a2: "background a2 = background a1" "frame a2 = Some f2"
    by blast
  from count_alarm_result [OF a2(2), of lib ar cf hog] s(3) obtain f3 where
    a3: "background a3 = background a2" "frame a3 = Some f3" by auto
  from distance_alarm_result [OF a3(2), of lib ar cf ds] s(4) have
    a4: "background a4 = background a3" by auto
  from do_object_detection_result [OF detect_result(2) [OF s(1)]]
  have "background a1 =
     (if use_mog2 ar
      then snd (subtractor_work lib (subtractor a)
                  (cvtColor_BGR2GRAY lib (resize_color lib raw (350, 300))))
      else background a)"
    by (auto simp: read_frame_fields refresh_background_def split: prod.splits)
  then show ?thesis by (simp add: s(5) update_heatmap_fields a4 a3 a2)
qed

lemma start_loop_background_kept:
  assumes "\<not> use_mog2 ar" "start_loop lib ar cf c capture a = Inr a'"
  shows "background a' = background a"
  using assms(2)
proof (induction capture arbitrary: c a)
  case Nil
  then show ?case by auto
next
  case (Cons x xs)
  obtain r k where x: "x = (r, k)" by (cases x)
  from Cons.prems x obtain a1 where
    lb: "loop_body lib ar cf c r a = Inr a1"
    and rest: "(if k AND 255 = 113 then Inr a1 else start_loop lib ar cf (c + 1) xs a1) = Inr a'"
    by (auto split: sum.splits)
  have b1: "background a1 = background a" using loop_body_background [OF lb] assms(1) by simp
  show ?case
  proof (cases "k AND 255 = 113")
    case True
    with rest b1 show ?thesis by simp
  next
    case False
    with rest have "start_loop lib ar cf (c + 1) xs a1 = Inr a'" by simp
    from Cons.IH [OF this] b1 show ?thesis by simp
  qed
qed

text \<open>
  C10. With \<^verbatim>\<open>--use-mog2\<close>, a turn of the loop and a whole run over a capture that is not
  empty do not depend on the background field they start from, and after each turn the
  field holds what the subtractor returned for the grayscale frame of that turn. Without
  the flag, the field after a run is the field before it.
\<close>

theorem mog2_discards_static_background:
  "(use_mog2 ar \<longrightarrow>
      (capture \<noteq> [] \<longrightarrow> start lib ar cf capture (a\<lparr>background := b\<rparr>) = start lib ar cf capture a) \<and>
      loop_body lib ar cf n raw (a\<lparr>background := b\<rparr>) = loop_body lib ar cf n raw a \<and>
      (\<forall>a'. loop_body lib ar cf n raw a = Inr a' \<longrightarrow>
         background a' = snd (subtractor_work lib (subtractor a)
                                (cvtColor_BGR2GRAY lib (resize_color lib raw (350, 300)))))) \<and>
   (\<not> use_mog2 ar \<longrightarrow>
      (\<forall>a'. start lib ar cf capture a = Inr a' \<longrightarrow> background a' = background a))"
proof (intro conjI impI allI)
  assume m: "use_mog2 ar" and ne: "capture \<noteq> []"
  then obtain r k xs where c: "capture = (r, k) # xs" by (cases capture) auto
  show "start lib ar cf capture (a\<lparr>background := b\<rparr>) = start lib ar cf capture a"
    by (simp add: start_def c loop_body_background_irrelevant [OF m])
next
  assume m: "use_mog2 ar"
  show "loop_body lib ar cf n raw (a\<lparr>background := b\<rparr>) = loop_body lib ar cf n raw a"
    by (rule loop_body_background_irrelevant [OF m])
next
  fix a' assume "use_mog2 ar" "loop_body lib ar cf n raw a = Inr a'"
  then show "background a' = snd (subtractor_work lib (subtractor a)
                                (cvtColor_BGR2GRAY lib (resize_color lib raw (350, 300))))"
    using loop_body_background by fastforce
next
  fix a' assume "\<not> use_mog2 ar" "start lib ar cf capture a = Inr a'"
  then show "background a' = background a"
    by (simp add: start_def start_loop_background_kept)
qed

section \<open>The resolution of the rasters\<close>

lemma has_size_map: "has_size (map (map g) r) w h = has_size r w h"
  by (simp add: has_size_def list_all_iff)

lemma has_size_zeros_like: "has_size r w h \<Longrightarrow> has_size (zeros_like r) w h"
  by (simp add: zeros_like_def has_size_map)

lemma has_size_darken_heatmap: "has_size hm w h \<Longrightarrow> has_size (darken_heatmap hm) w h"
  by (simp only: darken_heatmap_struct has_size_map)

lemma has_size_draw_box:
  assumes "has_size hm w h"
  shows "has_size (draw_box hm b) w h"
proof -
  have "length (draw_box hm b ! i) = w" if "i < length hm" for i
    using that assms by (simp add: draw_box_nth length_brighten_row has_size_def list_all_length)
  then show ?thesis
    using assms by (simp add: has_size_def list_all_length length_draw_box)
qed

lemma has_size_draw_heatmap: "has_size hm w h \<Longrightarrow> has_size (draw_heatmap hm boxes) w h"
  unfolding draw_heatmap_def
  by (induction boxes arbitrary: hm) (simp_all add: has_size_draw_box)

lemma init_app_sizes:
  assumes "lib_contract lib"
  shows "has_size (background (init_app lib sub0 img)) 350 300"
    and "has_size (heatmap (init_app lib sub0 img)) 350 300"
proof -
  from assms have r: "has_size (resize_gray lib g (350, 300)) 350 300" for g
    by (simp add: lib_contract_def)
  show "has_size (background (init_app lib sub0 img)) 350 300"
    by (simp add: init_app_def Let_def r split: prod.splits)
  show "has_size (heatmap (init_app lib sub0 img)) 350 300"
    by (simp add: init_app_def Let_def r has_size_zeros_like split: prod.splits)
qed

lemma read_frame_resolution:
  assumes "lib_contract lib" "has_size (background a) 350 300" "has_size (heatmap a) 350 300"
  shows "resolution_ok (read_frame lib raw a)"
proof -
  from assms(1) have f: "has_size (resize_color lib raw (350, 300)) 350 300"
    by (simp add: lib_contract_def)
  with assms(1) have "has_size (cvtColor_BGR2GRAY lib (resize_color lib raw (350, 300))) 350 300"
    by (simp add: lib_contract_def)
  with f assms(2,3) show ?thesis by (simp add: resolution_ok_def read_frame_fields)
qed

lemma detect_resolution:
  assumes c: "lib_contract lib" and ok: "resolution_ok a"
    and d: "detect lib ar a = Inr (hog, small, a1)"
  shows "resolution_ok a1"
proof -
  note od = detect_result(2) [OF d]
  from do_object_detection_result [OF od] obtain g where
    g: "gray a = Some g"
    and a1: "a1 = (refresh_background lib (use_mog2 ar) g a)
                  \<lparr>console := console a @ caught_errors lib (contours_background a)
                       (segment_contours lib g (refresh_background lib (use_mog2 ar) g a))\<rparr>"
    by blast
  from ok g have gs: "has_size g 350 300" by (simp add: resolution_ok_def)
  with c have m: "has_size (snd (mog2_apply lib (subtractor a) g)) 350 300"
    by (simp add: lib_contract_def)
  obtain s' bg where e: "mog2_apply lib (subtractor a) g = (s', bg)"
    by (cases "mog2_apply lib (subtractor a) g")
  have "has_size (background (refresh_background lib (use_mog2 ar) g a)) 350 300"
    using ok m by (simp add: refresh_background_def subtractor_work_def resolution_ok_def e)
  then show ?thesis
    using ok by (simp add: a1 resolution_ok_def refresh_background_frame)
qed

lemma contract_draws:
  assumes "lib_contract lib" "has_size f w h"
  shows "has_size (draw_hog_bounding_boxes lib f bs col) w h"
    and "has_size (draw_bounding_boxes lib f bs col) w h"
    and "has_size (write_people_count lib f n) w h"
    and "has_size (fst (draw_distance_between_people lib f d p m)) w h"
    and "has_size (write_average_people_distance lib f v) w h"
    and "has_size (circle lib f pos r col t) w h"
  using assms by (cases col rule: prod_cases3; cases pos; simp add: lib_contract_def)+

lemma annotate_frame_size:
  assumes c: "lib_contract lib" and f: "frame a = Some f" "has_size f w h"
    and an: "annotate lib ar cf hog small a = Inr (ds, a2)"
  shows "\<exists>f'. frame a2 = Some f' \<and> has_size f' w h"
proof -
  let ?f1 = "if show_hog_boxes ar then draw_hog_bounding_boxes lib f hog (255, 0, 0) else f"
  have s1: "has_size ?f1 w h"
    using f(2) contract_draws(1) [OF c f(2)] by simp
  let ?f2 = "if no_filter_optimized_boxes ar
             then draw_bounding_boxes lib ?f1 small (0, 255, 0)
             else draw_bounding_boxes lib ?f1 (filter_bounding_boxes lib hog small 200) (0, 255, 0)"
  have s2: "has_size ?f2 w h"
    using contract_draws(2) [OF c s1] by simp
  let ?f3 = "write_people_count lib ?f2 (length hog)"
  have s3: "has_size ?f3 w h"
    using s2 by (rule contract_draws(3) [OF c])
  let ?dd = "draw_distance_between_people lib ?f3
      (get_distance_to_camera lib f (filter_bounding_boxes lib hog small 200)
         (camera_height cf) (camera_lower_angle cf) (camera_upper_angle cf))
      (17 / 10) (min_distance_allowed cf)"
  have s4: "has_size (fst ?dd) w h"
    using s3 by (rule contract_draws(4) [OF c])
  have s5: "has_size (write_average_people_distance lib (fst ?dd) v) w h" for v
    using s4 by (rule contract_draws(5) [OF c])
  obtain f4 dists where e: "?dd = (f4, dists)" by (cases ?dd)
  have s6: "has_size (write_average_people_distance lib f4 v) w h" for v
    using s5 [of v] unfolding e by simp
  show ?thesis
    using an f(1) s6 by (auto simp: annotate_def Let_def e)
qed

lemma alarm_frame_size:
  assumes c: "lib_contract lib" and f: "has_size f w h"
    and fr: "frame a = Some f \<or> frame a = Some (circle lib f pos r col t)"
  shows "\<exists>f'. frame a = Some f' \<and> has_size f' w h"
proof -
  have "has_size (circle lib f pos r col t) w h"
    using f by (rule contract_draws(6) [OF c])
  with f fr show ?thesis by auto
qed

lemma loop_stages_resolution:
  assumes c: "lib_contract lib"
    and bg: "has_size (background a) 350 300" and hm: "has_size (heatmap a) 350 300"
    and d: "detect lib ar (read_frame lib raw a) = Inr (hog, small, a1)"
    and an: "annotate lib ar cf hog small a1 = Inr (ds, a2)"
    and ca: "count_alarm lib ar cf hog a2 = Inr a3"
    and da: "distance_alarm lib ar cf ds a3 = Inr a4"
  shows "resolution_ok a1 \<and> resolution_ok a2 \<and> resolution_ok a3 \<and> resolution_ok a4 \<and>
         resolution_ok (update_heatmap n small a4)"
proof -
  have ok1: "resolution_ok a1"
    using detect_resolution [OF c read_frame_resolution [OF c bg hm] d] .
  then obtain f1 where f1: "frame a1 = Some f1" "has_size f1 350 300"
    by (auto simp: resolution_ok_def split: option.splits)
  from annotate_frame_size [OF c f1 an] obtain f2 where
    f2: "frame a2 = Some f2" "has_size f2 350 300" by blast
  have ok2: "resolution_ok a2"
    using ok1 f2 annotate_result(2,3,4) [OF an] by (simp add: resolution_ok_def)
  from count_alarm_result [OF f2(1), of lib ar cf hog] ca have
    r3: "heatmap a3 = heatmap a2" "background a3 = background a2" "gray a3 = gray a2"
      "frame a3 = Some f2 \<or> frame a3 = Some (circle lib f2 (335, 265) 3 (0, 128, 255) 5)"
    by auto
  from alarm_frame_size [OF c f2(2) r3(4)] obtain f3 where
    f3: "frame a3 = Some f3" "has_size f3 350 300" by blast
  have ok3: "resolution_ok a3"
    using ok2 f3 r3(1,2,3) by (simp add: resolution_ok_def)
  from distance_alarm_result [OF f3(1), of lib ar cf ds] da have
    r4: "heatmap a4 = heatmap a3" "background a4 = background a3" "gray a4 = gray a3"
      "frame a4 = Some f3 \<or> frame a4 = Some (circle lib f3 (335, 285) 3 (0, 0, 255) 5)"
    by auto
  from alarm_frame_size [OF c f3(2) r4(4)] obtain f4 where
    f4: "frame a4 = Some f4" "has_size f4 350 300" by blast
  have ok4: "resolution_ok a4"
    using ok3 f4 r4(1,2,3) by (simp add: resolution_ok_def)
  have ok5: "resolution_ok (update_heatmap n small a4)"
    using ok4
    by (simp add: resolution_ok_def update_heatmap_fields has_size_draw_heatmap
        has_size_darken_heatmap)
  from ok1 ok2 ok3 ok4 ok5 show ?thesis by simp
qed

lemma loop_body_sizes:
  assumes c: "lib_contract lib"
    and bg: "has_size (background a) 350 300" and hm: "has_size (heatmap a) 350 300"
    and lb: "loop_body lib ar cf n raw a = Inr a'"
  shows "resolution_ok a'"
proof -
  from loop_body_stages [OF lb] obtain hog small a1 ds a2 a3 a4 where
    s: "detect lib ar (read_frame lib raw a) = Inr (hog, small, a1)"
       "annotate lib ar cf hog small a1 = Inr (ds, a2)"
       "count_alarm lib ar cf hog a2 = Inr a3"
       "distance_alarm lib ar cf ds a3 = Inr a4"
       "a' = update_heatmap n small a4"
    by blast
  from loop_stages_resolution [OF c bg hm s(1,2,3,4), of n] s(5) show ?thesis by simp
qed

lemma start_loop_sizes:
  assumes c: "lib_contract lib"
    and bg: "has_size (background a) 350 300" and hm: "has_size (heatmap a) 350 300"
    and st: "start_loop lib ar cf k capture a = Inr a'"
  shows "has_size (background a') 350 300 \<and> has_size (heatmap a') 350 300"
  using bg hm st
proof (induction capture arbitrary: k a)
  case Nil
  then show ?case by auto
next
  case (Cons x xs)
  obtain r key where x: "x = (r, key)" by (cases x)
  from Cons.prems(3) x obtain a1 where
    lb: "loop_body lib ar cf k r a = Inr a1"
    and rest: "(if key AND 255 = 113 then Inr a1 else start_loop lib ar cf (k + 1) xs a1) = Inr a'"
    by (auto split: sum.splits)
  from loop_body_sizes [OF c Cons.prems(1,2) lb]
  have s1: "has_size (background a1) 350 300" "has_size (heatmap a1) 350 300"
    by (simp_all add: resolution_ok_def)
  show ?case
  proof (cases "key AND 255 = 113")
    case True
    with rest s1 show ?thesis by simp
  next
    case False
    with rest have "start_loop lib ar cf (k + 1) xs a1 = Inr a'" by simp
    from Cons.IH [OF s1 this] show ?thesis .
  qed
qed

text \<open>
  C9. With libraries that keep their contracts on sizes, the background and the heatmap
  are 350 by 300 after \<^verbatim>\<open>__init__\<close>; from a state where they are, the frame, its
  grayscale form, the background and the heatmap are all 350 by 300 after the frame is
  read and resized, after detection, after the drawing, after each alarm and after the
  heatmap update; and the background and the heatmap are 350 by 300 at the end of every
  run.
\<close>

theorem resolution_invariant:
  assumes "lib_contract lib"
  shows "has_size (background (init_app lib sub0 img)) 350 300 \<and>
         has_size (heatmap (init_app lib sub0 img)) 350 300 \<and>
         (has_size (background a) 350 300 \<and> has_size (heatmap a) 350 300 \<longrightarrow>
            resolution_ok (read_frame lib raw a) \<and>
            (\<forall>hog small a1 ds a2 a3 a4.
               detect lib ar (read_frame lib raw a) = Inr (hog, small, a1) \<and>
               annotate lib ar cf hog small a1 = Inr (ds, a2) \<and>
               count_alarm lib ar cf hog a2 = Inr a3 \<and>
               distance_alarm lib ar cf ds a3 = Inr a4 \<longrightarrow>
               resolution_ok a1 \<and> resolution_ok a2 \<and> resolution_ok a3 \<and> resolution_ok a4 \<and>
               resolution_ok (update_heatmap n small a4))) \<and>
         (\<forall>a'. start lib ar cf capture (init_app lib sub0 img) = Inr a' \<longrightarrow>
            has_size (background a') 350 300 \<and> has_size (heatmap a') 350 300)"
proof (intro conjI impI allI)
  show "has_size (background (init_app lib sub0 img)) 350 300"
    and "has_size (heatmap (init_app lib sub0 img)) 350 300"
    using init_app_sizes [OF assms] by simp_all
next
  assume "has_size (background a) 350 300 \<and> has_size (heatmap a) 350 300"
  then show "resolution_ok (read_frame lib raw a)"
    using read_frame_resolution [OF assms] by simp
next
  fix hog small a1 ds a2 a3 a4
  assume s: "has_size (background a) 350 300 \<and> has_size (heatmap a) 350 300"
    and st: "detect lib ar (read_frame lib raw a) = Inr (hog, small, a1) \<and>
       annotate lib ar cf hog small a1 = Inr (ds, a2) \<and>
       count_alarm lib ar cf hog a2 = Inr a3 \<and>
       distance_alarm lib ar cf ds a3 = Inr a4"
  from s st loop_stages_resolution [OF assms, of a ar raw hog small a1 cf ds a2 a3 a4 n]
  show "resolution_ok a1" "resolution_ok a2" "resolution_ok a3" "resolution_ok a4"
    "resolution_ok (update_heatmap n small a4)"
    by simp_all
next
  fix a' assume st: "start lib ar cf capture (init_app lib sub0 img) = Inr a'"
  from start_loop_sizes [OF assms init_app_sizes [OF assms]] st
  show "has_size (background a') 350 300" "has_size (heatmap a') 350 300"
    unfolding start_def by blast+
qed

lemma fake_lib_contract: "lib_contract fake_lib"
  by (auto simp: lib_contract_def fake_lib_def has_size_def list_all_iff)

theorem resolution_invariant_witness:
  "lib_contract fake_lib \<and>
   has_size (background (init_app fake_lib 0 [[(1, 2, 3)]])) 350 300 \<and>
   has_size (heatmap (init_app fake_lib 0 [[(1, 2, 3)]])) 350 300 \<and>
   resolution_ok (read_frame fake_lib [[(4, 5, 6)]] (init_app fake_lib 0 [[(1, 2, 3)]]))"
  using fake_lib_contract
    resolution_invariant [OF fake_lib_contract, of 0 "[[(1, 2, 3)]]"
      "init_app fake_lib 0 [[(1, 2, 3)]]" "[[(4, 5, 6)]]" fake_args fake_conf 0 "[]"]
  by simp

section \<open>Runs on the stand-in libraries\<close>

theorem exclusion_catches_IndexError_witness:
  "do_object_detection (fake_lib\<lparr>np_delete := \<lambda>d c. Inl (IndexError ''index out of bounds'')\<rparr>)
     False (fake_app\<lparr>gray := Some [[7]]\<rparr>) =
   Inr ([(0, 0, 1, 1)],
        fake_app\<lparr>gray := Some [[7]], console := [ErrorLine ''index out of bounds'']\<rparr>)"
proof -
  let ?lib = "fake_lib\<lparr>np_delete := \<lambda>d c. Inl (IndexError ''index out of bounds'')\<rparr>"
  have g: "gray (fake_app\<lparr>gray := Some [[7]]\<rparr>) = Some [[7]]" by simp
  have h: "\<forall>d c e. np_delete ?lib d c = Inl e \<longrightarrow> is_IndexError e" by auto
  show ?thesis
    by (subst exclusion_catches_IndexError [OF g h])
      (simp add: refresh_background_def segment_contours_def caught_errors_def
        fake_lib_def fake_app_def)
qed

lemma fake_start:
  "\<exists>a'. start fake_lib fake_args fake_conf [([[(1, 2, 3)]], 0)] fake_app = Inr a'"
proof -
  from fake_annotate obtain a2 where
    an: "annotate fake_lib fake_args fake_conf [(0, 0, 1, 1), (5, 5, 1, 1)] [(0, 0, 1, 1)]
          (read_frame fake_lib [[(1, 2, 3)]] fake_app) = Inr ([2, 1, 3], a2)" ..
  from loop_body_result [OF fake_detect an, of 0] obtain a' where
    "loop_body fake_lib fake_args fake_conf 0 [[(1, 2, 3)]] fake_app = Inr a'" by blast
  then show ?thesis by (simp add: start_def)
qed

theorem heatmap_every_tenth_frame_witness:
  "\<exists>a'. start fake_lib fake_args fake_conf [([[(1, 2, 3)]], 0)] fake_app = Inr a' \<and>
         heatmap a' = [[13]]"
proof -
  have nq: "no_quit []" by (simp add: no_quit_def)
  have st: "start fake_lib fake_args fake_conf [] fake_app = Inr fake_app"
    by (simp add: start_def fake_app_def)
  have hm: "draw_heatmap (darken_heatmap [[0]]) [(0, 0, 1, 1)] = [[13]]" by code_simp
  have h0: "heatmap fake_app = [[0]]" by (simp add: fake_app_def)
  from heatmap_every_tenth_frame [OF nq st fake_detect, of 0] show ?thesis
    by (simp add: hm h0)
qed

theorem mog2_discards_static_background_witness:
  "use_mog2 (fake_args\<lparr>use_mog2 := True\<rparr>) \<and>
   start fake_lib (fake_args\<lparr>use_mog2 := True\<rparr>) fake_conf [([[(1, 2, 3)]], 0)]
     (fake_app\<lparr>background := [[9]]\<rparr>) =
   start fake_lib (fake_args\<lparr>use_mog2 := True\<rparr>) fake_conf [([[(1, 2, 3)]], 0)] fake_app \<and>
   \<not> use_mog2 fake_args \<and>
   (\<exists>a'. start fake_lib fake_args fake_conf [([[(1, 2, 3)]], 0)] fake_app = Inr a' \<and>
      background a' = [[0]])"
proof -
  have m: "use_mog2 (fake_args\<lparr>use_mog2 := True\<rparr>)" by simp
  have n: "\<not> use_mog2 fake_args" by (simp add: fake_args_def)
  from fake_start obtain a' where
    st: "start fake_lib fake_args fake_conf [([[(1, 2, 3)]], 0)] fake_app = Inr a'" ..
  have b0: "background fake_app = [[0]]" by (simp add: fake_app_def)
  from mog2_discards_static_background [where ar = "fake_args\<lparr>use_mog2 := True\<rparr>"
      and capture = "[([[(1, 2, 3)]], 0)]" and lib = fake_lib and cf = fake_conf
      and a = fake_app and b = "[[9]]" and n = 0 and raw = "[[(1, 2, 3)]]"] m
  have p1: "start fake_lib (fake_args\<lparr>use_mog2 := True\<rparr>) fake_conf [([[(1, 2, 3)]], 0)]
     (fake_app\<lparr>background := [[9]]\<rparr>) =
   start fake_lib (fake_args\<lparr>use_mog2 := True\<rparr>) fake_conf [([[(1, 2, 3)]], 0)] fake_app"
    by simp
  from mog2_discards_static_background [where ar = fake_args
      and capture = "[([[(1, 2, 3)]], 0)]" and lib = fake_lib and cf = fake_conf
      and a = fake_app and b = "[[9]]" and n = 0 and raw = "[[(1, 2, 3)]]"] n st
  have p2: "background a' = [[0]]" by (simp add: b0)
  from m p1 n st p2 show ?thesis by blast
qed

end
